theory Spec2Isabelle
  imports Main
begin

section \<open>Python values used by \<^verbatim>\<open>get_api_data.py\<close>\<close>

text \<open>
  The command of \<^verbatim>\<open>cfc_app/management/commands/get_api_data.py\<close> works on JSON
  text that \<^verbatim>\<open>json.loads\<close> turns into Python dictionaries, lists, strings and
  numbers, and it reads fields from them with \<^verbatim>\<open>entry['key']\<close>. The values are
  modelled as they are at run time: dynamically typed, with the exceptions Python raises
  when a key is missing or an operation does not apply to a value. JSON numbers are the
  integers (the fields the command reads are identifiers, years and byte counts); a
  dictionary is an association list whose first binding of a key is the dictionary's.
\<close>

datatype json =
    JNull
  | JBool bool
  | JNum int
  | JStr string
  | JArr "json list"
  | JObj "(string \<times> json) list"

datatype error =
    CommandError string
  | KeyError string
  | TypeError
  | ValueError
  | NotFound string
  | JSONDecodeError

text \<open>\<^verbatim>\<open>str(n)\<close> for an integer.\<close>

fun show_nat :: "nat \<Rightarrow> string" where
  "show_nat n =
     (if n < 10 then [''0123456789'' ! n]
      else show_nat (n div 10) @ [''0123456789'' ! (n mod 10)])"

declare show_nat.simps [simp del]

definition show_int :: "int \<Rightarrow> string" where
  "show_int i = (if i < 0 then CHR ''-'' # show_nat (nat (- i)) else show_nat (nat i))"

text \<open>
  \<^verbatim>\<open>str(v)\<close> and \<^verbatim>\<open>'{}'.format(v)\<close>. Numbers, strings, booleans and
  \<^verbatim>\<open>None\<close> print as Python prints them. A list or dictionary prints its elements
  with \<open>py_repr\<close>, which puts a string between single quotes; Python also escapes
  quotes, backslashes and control characters there, which \<open>py_repr\<close> leaves as they are.
\<close>

fun intersperse :: "string \<Rightarrow> string list \<Rightarrow> string" where
  "intersperse sep [] = []"
| "intersperse sep [x] = x"
| "intersperse sep (x # y # ys) = x @ sep @ intersperse sep (y # ys)"

fun py_repr :: "json \<Rightarrow> string" where
  "py_repr JNull = ''None''"
| "py_repr (JBool b) = (if b then ''True'' else ''False'')"
| "py_repr (JNum n) = show_int n"
| "py_repr (JStr s) = [CHR 0x27] @ s @ [CHR 0x27]"
| "py_repr (JArr xs) = ''['' @ intersperse '', '' (map py_repr xs) @ '']''"
| "py_repr (JObj kvs) =
     ''{'' @ intersperse '', ''
        (map (\<lambda>kv. [CHR 0x27] @ fst kv @ [CHR 0x27] @ '': '' @ py_repr (snd kv)) kvs) @ ''}''"

definition py_str :: "json \<Rightarrow> string" where
  "py_str v = (case v of JStr s \<Rightarrow> s | _ \<Rightarrow> py_repr v)"

text \<open>\<^verbatim>\<open>str(x)\<close> as \<^verbatim>\<open>print\<close> shows an attribute that is a string or \<^verbatim>\<open>None\<close>.\<close>

definition str_opt :: "string option \<Rightarrow> string" where
  "str_opt x = (case x of None \<Rightarrow> ''None'' | Some s \<Rightarrow> s)"

text \<open>Truth value of a string-or-\<^verbatim>\<open>None\<close>: \<^verbatim>\<open>None\<close> and \<^verbatim>\<open>''\<close> are false.\<close>

definition truthy :: "string option \<Rightarrow> bool" where
  "truthy x = (case x of None \<Rightarrow> False | Some s \<Rightarrow> s \<noteq> [])"

text \<open>\<^verbatim>\<open>sub in s\<close> on strings.\<close>

definition startswith :: "string \<Rightarrow> string \<Rightarrow> bool" where
  "startswith p s = (take (length p) s = p)"

fun py_substr :: "string \<Rightarrow> string \<Rightarrow> bool" where
  "py_substr k [] = (k = [])"
| "py_substr k (c # cs) = (startswith k (c # cs) \<or> py_substr k cs)"

text \<open>
  \<^verbatim>\<open>key in v\<close>: membership among the keys of a dictionary, among the elements of a
  list, as a substring of a string; \<^verbatim>\<open>TypeError\<close> on a value that is not iterable.
\<close>

definition py_in :: "string \<Rightarrow> json \<Rightarrow> error + bool" where
  "py_in k v =
     (case v of
        JObj kvs \<Rightarrow> Inr (k \<in> set (map fst kvs))
      | JArr xs \<Rightarrow> Inr (JStr k \<in> set xs)
      | JStr s \<Rightarrow> Inr (py_substr k s)
      | _ \<Rightarrow> Inl TypeError)"

text \<open>
  \<^verbatim>\<open>v[key]\<close> with a string key: the value bound in a dictionary, \<^verbatim>\<open>KeyError\<close>
  when the key is missing, \<^verbatim>\<open>TypeError\<close> on every other value.
\<close>

definition py_getitem :: "json \<Rightarrow> string \<Rightarrow> error + json" where
  "py_getitem v k =
     (case v of
        JObj kvs \<Rightarrow> (case map_of kvs k of None \<Rightarrow> Inl (KeyError k) | Some x \<Rightarrow> Inr x)
      | _ \<Rightarrow> Inl TypeError)"

text \<open>
  \<^verbatim>\<open>for entry in v\<close>: the elements of a list, the keys of a dictionary, the
  characters of a string; \<^verbatim>\<open>TypeError\<close> on \<^verbatim>\<open>None\<close> and on numbers.
\<close>

definition py_iter :: "json \<Rightarrow> error + json list" where
  "py_iter v =
     (case v of
        JArr xs \<Rightarrow> Inr xs
      | JObj kvs \<Rightarrow> Inr (map (\<lambda>kv. JStr (fst kv)) kvs)
      | JStr s \<Rightarrow> Inr (map (\<lambda>c. JStr [c]) s)
      | _ \<Rightarrow> Inl TypeError)"

text \<open>
  \<^verbatim>\<open>v == i\<close> and \<^verbatim>\<open>v >= i\<close> for an integer \<open>i\<close>. A Python boolean is the
  integer 0 or 1. Values of other types are never equal to an integer, and comparing them
  by order raises \<^verbatim>\<open>TypeError\<close>.
\<close>

definition py_eq_int :: "json \<Rightarrow> int \<Rightarrow> bool" where
  "py_eq_int v i =
     (case v of JNum n \<Rightarrow> n = i | JBool b \<Rightarrow> (if b then 1 else 0) = i | _ \<Rightarrow> False)"

definition py_ge_int :: "json \<Rightarrow> int \<Rightarrow> error + bool" where
  "py_ge_int v i =
     (case v of
        JNum n \<Rightarrow> Inr (i \<le> n)
      | JBool b \<Rightarrow> Inr (i \<le> (if b then 1 else 0))
      | _ \<Rightarrow> Inl TypeError)"

section \<open>Dates\<close>

text \<open>
  A naive \<^verbatim>\<open>datetime\<close> is the number of microseconds since midnight before day 1 of
  the proleptic Gregorian calendar (day 1 is 0001-01-01), so that \<open><\<close> on integers is
  the order of \<^verbatim>\<open>datetime\<close> and a \<^verbatim>\<open>timedelta\<close> is subtracted as a number.
  The conversions between a day number and year, month, day are those of Python's
  \<^verbatim>\<open>datetime\<close> module.
\<close>

type_synonym datetime = int

definition is_leap :: "int \<Rightarrow> bool" where
  "is_leap y = (y mod 4 = 0 \<and> (y mod 100 \<noteq> 0 \<or> y mod 400 = 0))"

definition days_before_year :: "int \<Rightarrow> int" where
  "days_before_year y = (y - 1) * 365 + (y - 1) div 4 - (y - 1) div 100 + (y - 1) div 400"

definition days_in_month :: "int \<Rightarrow> int \<Rightarrow> int" where
  "days_in_month y m =
     (if m = 2 then (if is_leap y then 29 else 28)
      else if m = 4 \<or> m = 6 \<or> m = 9 \<or> m = 11 then 30 else 31)"

definition days_before_month :: "int \<Rightarrow> int \<Rightarrow> int" where
  "days_before_month y m = sum_list (map (days_in_month y) [1 .. m - 1])"

definition ymd2ord :: "int \<Rightarrow> int \<Rightarrow> int \<Rightarrow> int" where
  "ymd2ord y m d = days_before_year y + days_before_month y m + d"

definition ord2ymd :: "int \<Rightarrow> int \<times> int \<times> int" where
  "ord2ymd n0 =
     (let n = n0 - 1;
          n400 = n div 146097; n = n mod 146097;
          n100 = n div 36524; n = n mod 36524;
          n4 = n div 1461; n = n mod 1461;
          n1 = n div 365; n = n mod 365;
          year = n400 * 400 + 1 + n100 * 100 + n4 * 4 + n1
      in if n1 = 4 \<or> n100 = 4 then (year - 1, 12, 31)
         else
           let leapyear = (n1 = 3 \<and> (n4 \<noteq> 24 \<or> n100 = 3));
               month = (n + 50) div 32;
               preceding = days_before_month (if leapyear then 4 else 1) month
           in if preceding > n
              then (year, month - 1,
                    n - (preceding - days_in_month (if leapyear then 4 else 1) (month - 1)) + 1)
              else (year, month, n - preceding + 1))"

definition usec_per_day :: int where
  "usec_per_day = 86400000000"

text \<open>\<^verbatim>\<open>DT.datetime(y, m, d, hh, mm)\<close>.\<close>

definition mk_datetime :: "int \<Rightarrow> int \<Rightarrow> int \<Rightarrow> int \<Rightarrow> int \<Rightarrow> datetime" where
  "mk_datetime y m d hh mm = ymd2ord y m d * usec_per_day + (hh * 60 + mm) * 60000000"

text \<open>\<^verbatim>\<open>DT.timedelta(days=n)\<close>.\<close>

definition timedelta_days :: "int \<Rightarrow> int" where
  "timedelta_days n = n * usec_per_day"

definition digit_of :: "char \<Rightarrow> int option" where
  "digit_of c = map_of (zip ''0123456789'' [0, 1, 2, 3, 4, 5, 6, 7, 8, 9]) c"

fun digits_val :: "string \<Rightarrow> int \<Rightarrow> int option" where
  "digits_val [] acc = Some acc"
| "digits_val (c # cs) acc =
     (case digit_of c of None \<Rightarrow> None | Some d \<Rightarrow> digits_val cs (acc * 10 + d))"

text \<open>
  \<^verbatim>\<open>DT.datetime.strptime(s, "%Y-%m-%d")\<close> on a text of the shape
  \<^verbatim>\<open>dddd-dd-dd\<close>: midnight of that day, \<^verbatim>\<open>ValueError\<close> when the text is not a
  date of the calendar (years run from 1 to 9999).
\<close>

definition strptime :: "string \<Rightarrow> error + datetime" where
  "strptime s =
     (if length s = 10 \<and> s ! 4 = CHR ''-'' \<and> s ! 7 = CHR ''-'' then
        (case (digits_val (take 4 s) 0, digits_val (take 2 (drop 5 s)) 0,
               digits_val (take 2 (drop 8 s)) 0) of
           (Some y, Some m, Some d) \<Rightarrow>
             if 1 \<le> y \<and> 1 \<le> m \<and> m \<le> 12 \<and> 1 \<le> d \<and> d \<le> days_in_month y m
             then Inr (mk_datetime y m d 0 0)
             else Inl ValueError
         | _ \<Rightarrow> Inl ValueError)
      else Inl ValueError)"

definition pad :: "nat \<Rightarrow> string \<Rightarrow> string" where
  "pad w s = replicate (w - length s) CHR ''0'' @ s"

text \<open>\<^verbatim>\<open>now.strftime("%Y-%m-%d")\<close>.\<close>

definition strftime :: "datetime \<Rightarrow> string" where
  "strftime t =
     (case ord2ymd (t div usec_per_day) of
        (y, m, d) \<Rightarrow> pad 4 (show_int y) @ ''-'' @ pad 2 (show_int m) @ ''-'' @ pad 2 (show_int d))"

section \<open>File/Object Storage\<close>

text \<open>
  Modelled from the spec: the class \<^verbatim>\<open>FOB_Storage\<close> and its pattern
  \<^verbatim>\<open>DSLregex\<close> (module \<^verbatim>\<open>cfc_app.FOB_Storage\<close>) are not among the sources.
  The spec describes a Blob Store of keys and text contents that lists keys by prefix,
  uploads (overwriting what the key held) and downloads (failing with \<^verbatim>\<open>NotFound\<close>
  on a missing key), where manifest keys are \<^verbatim>\<open>DatasetList-YYYY-MM-DD.json\<close> and
  dataset keys are \<^verbatim>\<open><RegionCode>-<SessionId>.json\<close>. The store is an association
  list with one binding per key, in the order the keys were first uploaded.
\<close>

type_synonym blob_store = "(string \<times> string) list"

fun upload_text :: "string \<Rightarrow> string \<Rightarrow> blob_store \<Rightarrow> blob_store" where
  "upload_text content name [] = [(name, content)]"
| "upload_text content name (kv # kvs) =
     (if fst kv = name then (name, content) # kvs else kv # upload_text content name kvs)"

definition download_text :: "string \<Rightarrow> blob_store \<Rightarrow> error + string" where
  "download_text name store =
     (case map_of store name of None \<Rightarrow> Inl (NotFound name) | Some t \<Rightarrow> Inr t)"

definition list_items :: "string \<Rightarrow> blob_store \<Rightarrow> string list" where
  "list_items pre store = filter (startswith pre) (map fst store)"

definition DatasetList_items :: "blob_store \<Rightarrow> string list" where
  "DatasetList_items store = list_items ''DatasetList-'' store"

definition Dataset_items :: "string \<Rightarrow> blob_store \<Rightarrow> string list" where
  "Dataset_items state store = list_items (state @ ''-'') store"

definition gen_DatasetList_name :: "string \<Rightarrow> string" where
  "gen_DatasetList_name today = ''DatasetList-'' @ today @ ''.json''"

definition Dataset_name :: "string \<Rightarrow> json \<Rightarrow> string" where
  "Dataset_name state ident = state @ ''-'' @ py_str ident @ ''.json''"

definition date_shape :: "string \<Rightarrow> bool" where
  "date_shape d =
     (length d = 10 \<and> d ! 4 = CHR ''-'' \<and> d ! 7 = CHR ''-'' \<and>
      digits_val (take 4 d) 0 \<noteq> None \<and> digits_val (take 2 (drop 5 d)) 0 \<noteq> None \<and>
      digits_val (take 2 (drop 8 d)) 0 \<noteq> None)"

text \<open>
  \<^verbatim>\<open>DatasetList_search(name)\<close>: the match of the name against the manifest key
  pattern; \<open>Some d\<close> stands for a match object whose \<^verbatim>\<open>group(1)\<close> is the date
  text \<open>d\<close>, \<open>None\<close> for no match.
\<close>

definition DatasetList_search :: "string \<Rightarrow> string option" where
  "DatasetList_search name =
     (let d = take 10 (drop 12 name)
      in if name = ''DatasetList-'' @ d @ ''.json'' \<and> date_shape d then Some d else None)"

section \<open>The Legiscan client\<close>

text \<open>
  Modelled from the spec: the class \<^verbatim>\<open>LegiscanAPI\<close> (module
  \<^verbatim>\<open>cfc_app.LegiscanAPI\<close>) is not among the sources. The spec describes a
  Remote API Client with a fetch quota that is set at the start of a run, decremented by
  each successful fetch and never reset, \<^verbatim>\<open>quotaAvailable() -> bool\<close>,
  \<^verbatim>\<open>getManifest(qualityFilter) -> text | none\<close> and
  \<^verbatim>\<open>getDataset(sessionId, accessKey) -> text\<close>. The answers of the remote service
  are fields of the client (\<open>manifest_reply\<close>, \<open>dataset_reply\<close>), and the client
  keeps the list of the calls made to it (\<open>calls\<close>), so that a run's fetch attempts can
  be counted. A DatasetList that comes back empty or \<^verbatim>\<open>None\<close> is no successful
  fetch, and a fetch made with no quota left leaves the counter at zero.
\<close>

datatype api_call = GetDatasetList string | GetDataset json json

record legiscan =
  quota :: nat
  manifest_reply :: "string option"
  dataset_reply :: "json \<Rightarrow> json \<Rightarrow> string"
  calls :: "api_call list"

definition api_ok :: "legiscan \<Rightarrow> bool" where
  "api_ok leg = (0 < quota leg)"

definition getDatasetList :: "string \<Rightarrow> legiscan \<Rightarrow> string option \<times> legiscan" where
  "getDatasetList quality leg =
     (manifest_reply leg,
      leg\<lparr>quota := (if truthy (manifest_reply leg) then quota leg - 1 else quota leg),
          calls := calls leg @ [GetDatasetList quality]\<rparr>)"

definition getDataset :: "json \<Rightarrow> json \<Rightarrow> legiscan \<Rightarrow> string \<times> legiscan" where
  "getDataset session_id access_key leg =
     (dataset_reply leg session_id access_key,
      leg\<lparr>quota := quota leg - 1, calls := calls leg @ [GetDataset session_id access_key]\<rparr>)"

definition is_dataset_call :: "api_call \<Rightarrow> bool" where
  "is_dataset_call a = (case a of GetDataset s k \<Rightarrow> True | GetDatasetList q \<Rightarrow> False)"

section \<open>The command and its state\<close>

text \<open>
  A row of the \<^verbatim>\<open>Hash\<close> table (\<^verbatim>\<open>cfc_app.models.Hash\<close>) with the attributes
  the command assigns; \<open>hsize\<close> is the attribute \<^verbatim>\<open>size\<close>.
\<close>

record hash =
  item_name :: string
  fob_method :: string
  generated_date :: json
  hashcode :: json
  hsize :: json
  desc :: json

text \<open>
  The attributes of \<^verbatim>\<open>Command\<close> set by \<^verbatim>\<open>__init__\<close> and \<^verbatim>\<open>handle\<close>
  (\<open>self_state\<close> is \<^verbatim>\<open>self.state\<close>, which exists only once \<^verbatim>\<open>--state\<close>
  was given), together with what the command reads and writes outside itself: the
  contents of the store behind \<^verbatim>\<open>self.fob\<close>, the Legiscan client
  \<^verbatim>\<open>self.leg\<close>, the setting \<^verbatim>\<open>settings.FOB_METHOD\<close>, the rows of the
  \<^verbatim>\<open>Hash\<close> table in the order they were saved, and the lines printed to standard
  output.
\<close>

record command =
  fob :: blob_store
  leg :: legiscan
  use_api :: bool
  list_name :: "string option"
  list_data :: "string option"
  list_pkg :: json
  datasetlist :: json
  fromyear :: int
  frequency :: int
  self_state :: "string option"
  FOB_METHOD :: string
  hash_table :: "hash list"
  stdout :: "string list"

text \<open>\<^verbatim>\<open>Command.__init__\<close> (lines 45 to 56), given the surroundings of the run.\<close>

definition init :: "blob_store \<Rightarrow> legiscan \<Rightarrow> string \<Rightarrow> hash list \<Rightarrow> command" where
  "init store client method rows =
     \<lparr>fob = store, leg = client, use_api = False, list_name = None, list_data = None,
      list_pkg = JNull, datasetlist = JNull, fromyear = 2018, frequency = 7,
      self_state = None, FOB_METHOD = method, hash_table = rows, stdout = []\<rparr>"

definition print :: "string \<Rightarrow> command \<Rightarrow> command" where
  "print line c = c\<lparr>stdout := stdout c @ [line]\<rparr>"

text \<open>
  A method returns its value, or raises, and leaves the state as it is at that point:
  the result is a pair of \<open>Inr\<close> the value or \<open>Inl\<close> the exception, and the state.
  \<open>or_raise\<close> continues with the value of an expression that may raise; \<open>and_then\<close>
  continues after a call that may raise and changes the state.
\<close>

type_synonym 'a result = "(error + 'a) \<times> command"

definition or_raise :: "error + 'a \<Rightarrow> command \<Rightarrow> ('a \<Rightarrow> 'b result) \<Rightarrow> 'b result" where
  "or_raise r c f = (case r of Inl e \<Rightarrow> (Inl e, c) | Inr v \<Rightarrow> f v)"

definition and_then :: "'a result \<Rightarrow> ('a \<Rightarrow> command \<Rightarrow> 'b result) \<Rightarrow> 'b result" where
  "and_then r f = (case r of (Inl e, c) \<Rightarrow> (Inl e, c) | (Inr v, c) \<Rightarrow> f v c)"

subsection \<open>\<^verbatim>\<open>recent_enough\<close> (lines 114 to 169)\<close>

text \<open>\<^verbatim>\<open>DT.datetime(1911, 6, 16, 16, 20)\<close>, the starting value of \<^verbatim>\<open>latest_date\<close>.\<close>

definition long_ago :: datetime where
  "long_ago = mk_datetime 1911 6 16 16 20"

text \<open>The loop of lines 122 to 128 over the names that the store lists.\<close>

fun scan :: "string list \<Rightarrow> datetime \<times> string option \<Rightarrow> error + datetime \<times> string option" where
  "scan [] latest = Inr latest"
| "scan (name # names) latest =
     (case DatasetList_search name of
        None \<Rightarrow> scan names latest
      | Some g \<Rightarrow>
          (case strptime g of
             Inl e \<Rightarrow> Inl e
           | Inr filedate \<Rightarrow>
               if filedate > fst latest then scan names (filedate, Some name)
               else scan names latest))"

text \<open>Lines 134 to 142: the call of the Legiscan API for a new DatasetList.\<close>

definition api_refresh :: "datetime \<Rightarrow> command \<Rightarrow> command" where
  "api_refresh now c =
     (case getDatasetList ''Good'' (leg c) of
        (reply, leg') \<Rightarrow>
          let c1 = c\<lparr>leg := leg', list_data := reply\<rparr>;
              failed = print ''API Failed to get DatasetList from Legiscan'' c1
          in case reply of
               None \<Rightarrow> failed
             | Some t \<Rightarrow>
                 if t \<noteq> [] then
                   let today = strftime now;
                       c2 = c1\<lparr>list_name := Some (gen_DatasetList_name today)\<rparr>
                   in c2\<lparr>fob := upload_text t (gen_DatasetList_name today) (fob c2)\<rparr>
                 else failed)"

text \<open>
  Lines 146 and 147: the download of \<^verbatim>\<open>self.list_name\<close> from the store. A name that
  is \<^verbatim>\<open>None\<close> is no key of the store.
\<close>

definition fob_download :: "command \<Rightarrow> unit result" where
  "fob_download c =
     (let c1 = print (''Downloading:  '' @ str_opt (list_name c)) c
      in case list_name c1 of
           None \<Rightarrow> (Inl TypeError, c1)
         | Some name \<Rightarrow>
             or_raise (download_text name (fob c1)) c1
               (\<lambda>t. (Inr (), c1\<lparr>list_data := Some t\<rparr>)))"

text \<open>
  Lines 150 to 161: parsing and validation. \<open>loads\<close> is \<^verbatim>\<open>json.loads\<close>;
  \<open>text\<close> is \<^verbatim>\<open>self.list_data\<close>, which is not empty there.
\<close>

definition verify_json :: "(string \<Rightarrow> error + json) \<Rightarrow> string \<Rightarrow> command \<Rightarrow> unit result" where
  "verify_json loads text c =
     (let c1 = print (''Verifying JSON contents of:  '' @ str_opt (list_name c)) c
      in or_raise (loads text) c1 (\<lambda>pkg.
           let c2 = c1\<lparr>list_pkg := pkg\<rparr>
           in or_raise (py_in ''status'' pkg) c2 (\<lambda>has_status.
                if has_status then
                  or_raise (py_getitem pkg ''status'') c2 (\<lambda>status.
                    if status \<noteq> JStr ''OK'' then
                      (case list_name c2 of
                         None \<Rightarrow> (Inl TypeError, c2)
                       | Some name \<Rightarrow> (Inl (CommandError (''Status not OK: '' @ name)), c2))
                    else
                      or_raise (py_in ''datasetlist'' pkg) c2 (\<lambda>has_list.
                        if \<not> has_list then (Inl (CommandError ''datsetlist missing''), c2)
                        else
                          or_raise (py_getitem pkg ''datasetlist'') c2 (\<lambda>d.
                            (Inr (), c2\<lparr>datasetlist := d\<rparr>))))
                else (Inr (), c2))))"

text \<open>Lines 164 to 167.\<close>

definition not_found :: "command \<Rightarrow> (string option) result" where
  "not_found c =
     (let c1 = print ''DatasetList-YYYY-MM-DD.json not found'' c;
          c2 = (if \<not> use_api c1 then print ''Did you forget the --api parameter?'' c1 else c1)
      in (Inl (CommandError ''API failure, or DatasetList not Found''), c2))"

text \<open>
  The method. \<open>now\<close> is what \<^verbatim>\<open>DT.datetime.today()\<close> gives. The bare
  \<^verbatim>\<open>return\<close> of line 169 returns \<^verbatim>\<open>None\<close>.
\<close>

definition recent_enough ::
  "(string \<Rightarrow> error + json) \<Rightarrow> datetime \<Rightarrow> command \<Rightarrow> (string option) result" where
  "recent_enough loads now c =
     (let week_ago = now - timedelta_days 7;
          dsl_list = DatasetList_items (fob c)
      in or_raise (scan dsl_list (long_ago, None)) c (\<lambda>latest.
           let latest_date = fst latest;
               latest_name = snd latest;
               c1 = c\<lparr>list_name := latest_name\<rparr>;
               c2 = (if use_api c1 \<and> latest_date < week_ago then api_refresh now c1 else c1)
           in and_then
                (if truthy latest_name \<and> \<not> truthy (list_data c2) then fob_download c2
                 else (Inr (), c2))
                (\<lambda>u c3.
                   and_then
                     (case list_data c3 of
                        None \<Rightarrow> (Inr (), c3)
                      | Some text \<Rightarrow> if text \<noteq> [] then verify_json loads text c3 else (Inr (), c3))
                     (\<lambda>u c4.
                        if \<not> truthy (list_data c4) then not_found c4 else (Inr None, c4)))))"

subsection \<open>\<^verbatim>\<open>fetch_dataset\<close> (lines 171 to 184)\<close>

text \<open>The body of the loop, for one entry of \<^verbatim>\<open>self.datasetlist\<close>.\<close>

definition fetch_entry :: "string \<Rightarrow> int \<Rightarrow> json \<Rightarrow> command \<Rightarrow> unit result" where
  "fetch_entry state state_id entry c =
     or_raise (py_getitem entry ''state_id'') c (\<lambda>v.
       if py_eq_int v state_id then
         or_raise (py_getitem entry ''session_id'') c (\<lambda>session_id.
           or_raise (py_getitem entry ''access_key'') c (\<lambda>access_key.
             let session_name = Dataset_name state (JNum state_id)
             in or_raise (py_getitem entry ''year_end'') c (\<lambda>year_end.
                  or_raise (py_ge_int year_end (fromyear c)) c (\<lambda>recent.
                    if recent then
                      if use_api c \<and> api_ok (leg c) then
                        let c1 = print (''Fetching '' @ state @ '': '' @ py_str session_id) c
                        in case getDataset session_id access_key (leg c1) of
                             (session_data, leg') \<Rightarrow>
                               (Inr (), c1\<lparr>leg := leg',
                                  fob := upload_text session_data session_name (fob c1)\<rparr>)
                      else (Inr (), c)
                    else (Inr (), c)))))
       else (Inr (), c))"

fun fetch_loop :: "string \<Rightarrow> int \<Rightarrow> json list \<Rightarrow> command \<Rightarrow> unit result" where
  "fetch_loop state state_id [] c = (Inr (), c)"
| "fetch_loop state state_id (entry # entries) c =
     and_then (fetch_entry state state_id entry c) (\<lambda>u c'. fetch_loop state state_id entries c')"

definition fetch_dataset :: "string \<Rightarrow> int \<Rightarrow> command \<Rightarrow> unit result" where
  "fetch_dataset state state_id c =
     or_raise (py_iter (datasetlist c)) c (\<lambda>entries. fetch_loop state state_id entries c)"

subsection \<open>\<^verbatim>\<open>show_results\<close> (lines 214 to 222)\<close>

definition show_results :: "string \<Rightarrow> json \<Rightarrow> command \<Rightarrow> unit result" where
  "show_results json_name entry c =
     or_raise (py_getitem entry ''year_start'') c (\<lambda>year_start.
       or_raise (py_getitem entry ''year_end'') c (\<lambda>year_end.
         let year_range = py_str year_start;
             year_range' =
               (if JStr year_range \<noteq> year_end then year_range @ ''-'' @ py_str year_end
                else year_range)
         in or_raise (py_getitem entry ''session_id'') c (\<lambda>session_id.
              or_raise (py_getitem entry ''dataset_date'') c (\<lambda>dataset_date.
                or_raise (py_getitem entry ''dataset_size'') c (\<lambda>dataset_size.
                  (Inr (),
                   print (''Session '' @ py_str session_id @ '' Year: '' @ year_range' @
                          '' Date: '' @ py_str dataset_date @ '' Size: '' @
                          py_str dataset_size @ '' bytes'') c))))))"

subsection \<open>\<^verbatim>\<open>datasets_found\<close> (lines 186 to 212)\<close>

text \<open>Lines 204 to 210: a new \<^verbatim>\<open>Hash\<close> row is filled and saved.\<close>

definition save_hash :: "string \<Rightarrow> json \<Rightarrow> command \<Rightarrow> unit result" where
  "save_hash session_name entry c =
     or_raise (py_getitem entry ''dataset_date'') c (\<lambda>dataset_date.
       or_raise (py_getitem entry ''dataset_hash'') c (\<lambda>dataset_hash.
         or_raise (py_getitem entry ''dataset_size'') c (\<lambda>dataset_size.
           or_raise (py_getitem entry ''session_name'') c (\<lambda>name.
             (Inr (),
              c\<lparr>hash_table := hash_table c @
                   [\<lparr>item_name = session_name, fob_method = FOB_METHOD c,
                     generated_date = dataset_date, hashcode = dataset_hash,
                     hsize = dataset_size, desc = name\<rparr>]\<rparr>)))))"

text \<open>The body of the inner loop, for one entry of \<^verbatim>\<open>self.datasetlist\<close>.\<close>

definition found_entry :: "string \<Rightarrow> int \<Rightarrow> string list \<Rightarrow> json \<Rightarrow> command \<Rightarrow> unit result" where
  "found_entry state state_id found_list entry c =
     or_raise (py_getitem entry ''state_id'') c (\<lambda>v.
       if py_eq_int v state_id then
         or_raise (py_getitem entry ''year_end'') c (\<lambda>year_end.
           or_raise (py_ge_int year_end (fromyear c)) c (\<lambda>recent.
             if recent then
               or_raise (py_getitem entry ''session_id'') c (\<lambda>session_id.
                 let session_name = Dataset_name state session_id
                 in and_then
                      (if session_name \<in> set found_list then
                         and_then (show_results session_name entry c) (\<lambda>u c'.
                           (Inr (), print (''Found session dataset:  '' @ session_name) c'))
                       else (Inr (), print (''Item not found:  '' @ session_name) c))
                      (\<lambda>u c'. save_hash session_name entry c'))
             else (Inr (), c)))
       else (Inr (), c))"

fun found_loop :: "string \<Rightarrow> int \<Rightarrow> string list \<Rightarrow> json list \<Rightarrow> command \<Rightarrow> unit result" where
  "found_loop state state_id found_list [] c = (Inr (), c)"
| "found_loop state state_id found_list (entry # entries) c =
     and_then (found_entry state state_id found_list entry c)
       (\<lambda>u c'. found_loop state state_id found_list entries c')"

fun datasets_found :: "(string \<times> int) list \<Rightarrow> command \<Rightarrow> unit result" where
  "datasets_found [] c = (Inr (), c)"
| "datasets_found (state_data # states) c =
     (let c1 = print '' '' c;
          state = fst state_data;
          state_id = snd state_data;
          found_list = Dataset_items state (fob c1)
      in and_then
           (or_raise (py_iter (datasetlist c1)) c1
              (\<lambda>entries. found_loop state state_id found_list entries c1))
           (\<lambda>u c'. datasets_found states c'))"

subsection \<open>\<^verbatim>\<open>handle\<close> (lines 66 to 112)\<close>

text \<open>
  The options of the command line, and a row of the \<^verbatim>\<open>Location\<close> table
  (\<open>loc_desc\<close> is its attribute \<^verbatim>\<open>desc\<close>).
\<close>

record options =
  opt_api :: bool
  opt_state :: "string option"
  opt_frequency :: int

record location =
  shortname :: string
  legiscan_id :: int
  loc_desc :: string

text \<open>\<^verbatim>\<open>str.upper()\<close> on the letters of ASCII.\<close>

definition upper :: "string \<Rightarrow> string" where
  "upper s =
     map (\<lambda>c. case map_of (zip ''abcdefghijklmnopqrstuvwxyz'' ''ABCDEFGHIJKLMNOPQRSTUVWXYZ'') c of
                 None \<Rightarrow> c | Some u \<Rightarrow> u) s"

text \<open>
  The loop of lines 95 to 108 over the locations; \<open>states\<close> is the list built so far.
\<close>

fun handle_locations ::
  "options \<Rightarrow> location list \<Rightarrow> (string \<times> int) list \<Rightarrow> command \<Rightarrow> ((string \<times> int) list) result" where
  "handle_locations opts [] states c = (Inr states, c)"
| "handle_locations opts (loc # locs) states c =
     (let state = upper (shortname loc);
          state_id = legiscan_id loc;
          states' = states @ [(state, state_id)]
      in if truthy (opt_state opts) \<and> Some state \<noteq> opt_state opts
         then handle_locations opts locs states' c
         else
           let c1 = print (''Processing: '' @ loc_desc loc @ '' ('' @ state @ '')'') c
           in and_then (fetch_dataset state state_id c1)
                (\<lambda>u c'. handle_locations opts locs states' c'))"

text \<open>Lines 71 to 76: the options of the command line are taken over.\<close>

definition set_options :: "options \<Rightarrow> command \<Rightarrow> command" where
  "set_options opts c =
     (let c1 = (if opt_api opts then c\<lparr>use_api := True\<rparr> else c);
          c2 = (if truthy (opt_state opts) then c1\<lparr>self_state := opt_state opts\<rparr> else c1)
      in if opt_frequency opts \<noteq> 0 then c2\<lparr>frequency := opt_frequency opts\<rparr> else c2)"

text \<open>
  The method. \<open>locations\<close> is what \<^verbatim>\<open>Location.objects.filter(parent=usa)\<close> gives
  once \<^verbatim>\<open>load_default_locations\<close> has filled a table that was empty (lines 83 to
  92 read the catalog, which is outside the command).
\<close>

definition handle ::
  "(string \<Rightarrow> error + json) \<Rightarrow> datetime \<Rightarrow> location list \<Rightarrow> options \<Rightarrow> command \<Rightarrow> unit result" where
  "handle loads now locations opts c =
     and_then (recent_enough loads now (set_options opts c)) (\<lambda>r c4.
       and_then (handle_locations opts locations [] (c4\<lparr>list_data := r\<rparr>))
         (\<lambda>states c5. datasets_found states c5))"

section \<open>Manifest entries\<close>

text \<open>
  An entry of the DatasetList as the spec's data model has it, and the dictionary that
  \<^verbatim>\<open>json.loads\<close> gives for it, with the keys the command reads.
\<close>

record manifest_entry =
  externalId :: int
  sessionId :: int
  accessKey :: string
  yearStart :: int
  yearEnd :: int
  datasetDate :: string
  datasetHash :: string
  datasetSize :: int
  sessionName :: string

definition entry_json :: "manifest_entry \<Rightarrow> json" where
  "entry_json e =
     JObj [(''state_id'', JNum (externalId e)), (''session_id'', JNum (sessionId e)),
           (''access_key'', JStr (accessKey e)), (''year_start'', JNum (yearStart e)),
           (''year_end'', JNum (yearEnd e)), (''dataset_date'', JStr (datasetDate e)),
           (''dataset_hash'', JStr (datasetHash e)), (''dataset_size'', JNum (datasetSize e)),
           (''session_name'', JStr (sessionName e))]"

text \<open>The filter of both phases: the entry is of the region and not older than \<open>fromyear\<close>.\<close>

definition selected :: "int \<Rightarrow> int \<Rightarrow> manifest_entry \<Rightarrow> bool" where
  "selected state_id from_year e = (externalId e = state_id \<and> from_year \<le> yearEnd e)"

text \<open>
  What one fetch of lines 180 to 183 does to the state for such an entry: the line printed,
  the call of the client, and the upload under the name computed at line 177.
\<close>

definition fetched :: "string \<Rightarrow> int \<Rightarrow> manifest_entry \<Rightarrow> command \<Rightarrow> command" where
  "fetched state state_id e c =
     (print (''Fetching '' @ state @ '': '' @ show_int (sessionId e)) c)
       \<lparr>leg := snd (getDataset (JNum (sessionId e)) (JStr (accessKey e)) (leg c)),
        fob := upload_text (dataset_reply (leg c) (JNum (sessionId e)) (JStr (accessKey e)))
                 (Dataset_name state (JNum state_id)) (fob c)\<rparr>"

definition fetch_call :: "manifest_entry \<Rightarrow> api_call" where
  "fetch_call e = GetDataset (JNum (sessionId e)) (JStr (accessKey e))"

text \<open>The \<^verbatim>\<open>Hash\<close> row of lines 203 to 210 and the lines of 197 to 201 for such an entry.\<close>

definition ledger_row :: "string \<Rightarrow> string \<Rightarrow> manifest_entry \<Rightarrow> hash" where
  "ledger_row method state e =
     \<lparr>item_name = Dataset_name state (JNum (sessionId e)), fob_method = method,
      generated_date = JStr (datasetDate e), hashcode = JStr (datasetHash e),
      hsize = JNum (datasetSize e), desc = JStr (sessionName e)\<rparr>"

definition report_lines :: "string \<Rightarrow> string list \<Rightarrow> manifest_entry \<Rightarrow> string list" where
  "report_lines state found_list e =
     (let session_name = Dataset_name state (JNum (sessionId e))
      in if session_name \<in> set found_list then
           [''Session '' @ show_int (sessionId e) @ '' Year: '' @ show_int (yearStart e) @
              ''-'' @ show_int (yearEnd e) @ '' Date: '' @ datasetDate e @ '' Size: '' @
              show_int (datasetSize e) @ '' bytes'',
            ''Found session dataset:  '' @ session_name]
         else [''Item not found:  '' @ session_name])"

text \<open>The regions that \<^verbatim>\<open>handle\<close> collects in \<^verbatim>\<open>states\<close> (lines 96 to 99).\<close>

definition region_of :: "location \<Rightarrow> string \<times> int" where
  "region_of loc = (upper (shortname loc), legiscan_id loc)"

text \<open>
  The dataset fetches a client has made, and the fetches made plus the quota left.
\<close>

definition dataset_fetches :: "command \<Rightarrow> nat" where
  "dataset_fetches c = length (filter is_dataset_call (calls (leg c)))"

definition budget :: "command \<Rightarrow> nat" where
  "budget c = dataset_fetches c + quota (leg c)"

text \<open>
  The date that lines 123 to 125 read from a name of the store, and whether they read it
  without raising.
\<close>

definition file_date :: "string \<Rightarrow> datetime option" where
  "file_date name =
     (case DatasetList_search name of
        None \<Rightarrow> None
      | Some g \<Rightarrow> (case strptime g of Inl e \<Rightarrow> None | Inr d \<Rightarrow> Some d))"

definition valid_name :: "string \<Rightarrow> bool" where
  "valid_name name =
     (case DatasetList_search name of
        None \<Rightarrow> True
      | Some g \<Rightarrow> (case strptime g of Inl e \<Rightarrow> False | Inr d \<Rightarrow> True))"

text \<open>What lines 197 to 210 do to the state for such an entry.\<close>

definition found :: "string \<Rightarrow> string list \<Rightarrow> manifest_entry \<Rightarrow> command \<Rightarrow> command" where
  "found state found_list e c =
     c\<lparr>stdout := stdout c @ report_lines state found_list e,
       hash_table := hash_table c @ [ledger_row (FOB_METHOD c) state e]\<rparr>"

section \<open>Example inputs\<close>

text \<open>
  The entry of the spec's Scenario C, a manifest that lists it, a manifest without a status,
  a parser that knows these texts, a client, a region and the options of a run.
\<close>

definition example_entry :: manifest_entry where
  "example_entry =
     \<lparr>externalId = 5, sessionId = 9001, accessKey = ''key'', yearStart = 2019, yearEnd = 2019,
      datasetDate = ''2020-01-05'', datasetHash = ''abc'', datasetSize = 1234,
      sessionName = ''2019 Regular Session''\<rparr>"

definition old_entry :: manifest_entry where
  "old_entry =
     \<lparr>externalId = 5, sessionId = 8001, accessKey = ''old'', yearStart = 2016, yearEnd = 2017,
      datasetDate = ''2018-01-05'', datasetHash = ''def'', datasetSize = 99,
      sessionName = ''2016 Regular Session''\<rparr>"

definition example_manifest :: json where
  "example_manifest = JObj [(''status'', JStr ''OK''), (''datasetlist'', JArr [entry_json example_entry])]"

definition example_loads :: "string \<Rightarrow> error + json" where
  "example_loads text =
     (if text = ''manifest'' then Inr example_manifest
      else if text = ''no status'' then Inr (JObj [(''datasetlist'', JArr [entry_json example_entry])])
      else Inl JSONDecodeError)"

definition example_client :: "nat \<Rightarrow> string option \<Rightarrow> legiscan" where
  "example_client q reply =
     \<lparr>quota = q, manifest_reply = reply, dataset_reply = (\<lambda>s k. ''dataset''), calls = []\<rparr>"

definition example_location :: location where
  "example_location = \<lparr>shortname = ''az'', legiscan_id = 5, loc_desc = ''Arizona''\<rparr>"

definition example_options :: "bool \<Rightarrow> int \<Rightarrow> options" where
  "example_options a f = \<lparr>opt_api = a, opt_state = None, opt_frequency = f\<rparr>"

definition example_command :: command where
  "example_command =
     (init [] (example_client 10 None) ''local'' [])
       \<lparr>use_api := True, datasetlist := JArr (map entry_json [example_entry, old_entry])\<rparr>"

definition spent_command :: command where
  "spent_command =
     (init [(''DatasetList-2024-01-01.json'', ''manifest'')] (example_client 0 None) ''local'' [])
       \<lparr>use_api := True\<rparr>"

definition example_store :: blob_store where
  "example_store = [(''DatasetList-2024-01-01.json'', ''manifest'')]"

definition example_now :: datetime where
  "example_now = mk_datetime 2024 1 3 12 0"

text \<open>Lines 144 to 169 of \<^verbatim>\<open>recent_enough\<close>, which follow the call of the API.\<close>

definition after_refresh ::
  "(string \<Rightarrow> error + json) \<Rightarrow> string option \<Rightarrow> command \<Rightarrow> (string option) result" where
  "after_refresh loads latest_name c2 =
     and_then
       (if truthy latest_name \<and> \<not> truthy (list_data c2) then fob_download c2 else (Inr (), c2))
       (\<lambda>u c3.
          and_then
            (case list_data c3 of
               None \<Rightarrow> (Inr (), c3)
             | Some text \<Rightarrow> if text \<noteq> [] then verify_json loads text c3 else (Inr (), c3))
            (\<lambda>u c4. if \<not> truthy (list_data c4) then not_found c4 else (Inr None, c4)))"

text \<open>
  A whole run on the example: the DatasetList of 2024-01-01 is in the store, the
  command runs on 2024-01-03 with \<^verbatim>\<open>--api\<close>, quota is available, and the catalog has
  the one region AZ with the identifier 5 of the entry of Scenario C.
\<close>

definition example_result :: "unit result" where
  "example_result =
     handle example_loads example_now [example_location] (example_options True 7)
       (init example_store (example_client 10 None) ''local'' [])"

text \<open>
  A store with two DatasetLists and a dataset, a store whose DatasetList is of 1900, and a
  store whose DatasetList is named with a day that the calendar does not have.
\<close>

definition two_manifests :: blob_store where
  "two_manifests =
     [(''DatasetList-2023-12-25.json'', ''old manifest''),
      (''DatasetList-2024-01-01.json'', ''manifest''), (''AZ-5.json'', ''dataset'')]"

definition ancient_store :: blob_store where
  "ancient_store = [(''DatasetList-1900-01-01.json'', ''manifest'')]"

definition misdated_store :: blob_store where
  "misdated_store = [(''DatasetList-2024-02-30.json'', ''manifest'')]"

text \<open>
  Scenario B at the resolver: \<^verbatim>\<open>recent_enough\<close> on 2024-01-03 with the DatasetList of
  2024-01-01 in the store.
\<close>

definition example_resolved :: "(string option) result" where
  "example_resolved =
     recent_enough example_loads example_now
       (init example_store (example_client 10 None) ''local'' [])"

text \<open>
  The same store on 2024-01-20 with \<^verbatim>\<open>--api\<close> and a Legiscan service that gives no
  DatasetList; and Scenario A, a run without \<^verbatim>\<open>--api\<close> on an empty store.
\<close>

definition failed_refresh :: "(string option) result" where
  "failed_refresh =
     recent_enough example_loads (mk_datetime 2024 1 20 12 0)
       ((init example_store (example_client 10 None) ''local'' [])\<lparr>use_api := True\<rparr>)"

definition scenario_A :: "unit result" where
  "scenario_A =
     handle example_loads example_now [example_location] (example_options False 7)
       (init [] (example_client 10 None) ''local'' [])"

text \<open>
  A command with \<^verbatim>\<open>--api\<close> and \<^verbatim>\<open>--frequency f\<close> on the example store, with a
  Legiscan service that gives a DatasetList.
\<close>

definition configured :: "int \<Rightarrow> command" where
  "configured f =
     (init example_store (example_client 10 (Some ''manifest'')) ''local'' [])
       \<lparr>use_api := True, frequency := f\<rparr>"

text \<open>
  A store whose DatasetList has no status, \<^verbatim>\<open>recent_enough\<close> on it, and a whole run
  on it.
\<close>

definition unmarked_store :: blob_store where
  "unmarked_store = [(''DatasetList-2024-01-01.json'', ''no status'')]"

definition unmarked_resolved :: "(string option) result" where
  "unmarked_resolved =
     recent_enough example_loads example_now
       (init unmarked_store (example_client 10 None) ''local'' [])"

definition unmarked_run :: "unit result" where
  "unmarked_run =
     handle example_loads example_now [example_location] (example_options False 7)
       (init unmarked_store (example_client 10 None) ''local'' [])"

section \<open>Properties\<close>

subsection \<open>Sequencing, and reading a manifest entry\<close>

lemma show_nat_digit: "n < 10 \<Longrightarrow> show_nat n = [''0123456789'' ! n]"
  by (simp add: show_nat.simps)

lemma or_raise_Inl [simp]: "or_raise (Inl e) c f = (Inl e, c)"
  by (simp add: or_raise_def)

lemma or_raise_Inr [simp]: "or_raise (Inr v) c f = f v"
  by (simp add: or_raise_def)

lemma and_then_Inl [simp]: "and_then (Inl e, c) f = (Inl e, c)"
  by (simp add: and_then_def)

lemma and_then_Inr [simp]: "and_then (Inr v, c) f = f v c"
  by (simp add: and_then_def)

lemma getitem_entry_json [simp]:
  "py_getitem (entry_json e) ''state_id'' = Inr (JNum (externalId e))"
  "py_getitem (entry_json e) ''session_id'' = Inr (JNum (sessionId e))"
  "py_getitem (entry_json e) ''access_key'' = Inr (JStr (accessKey e))"
  "py_getitem (entry_json e) ''year_start'' = Inr (JNum (yearStart e))"
  "py_getitem (entry_json e) ''year_end'' = Inr (JNum (yearEnd e))"
  "py_getitem (entry_json e) ''dataset_date'' = Inr (JStr (datasetDate e))"
  "py_getitem (entry_json e) ''dataset_hash'' = Inr (JStr (datasetHash e))"
  "py_getitem (entry_json e) ''dataset_size'' = Inr (JNum (datasetSize e))"
  "py_getitem (entry_json e) ''session_name'' = Inr (JStr (sessionName e))"
  by (simp_all add: py_getitem_def entry_json_def)

lemma fetch_entry_json:
  "fetch_entry state state_id (entry_json e) c =
     (Inr (), if selected state_id (fromyear c) e \<and> use_api c \<and> api_ok (leg c)
              then fetched state state_id e c else c)"
  by (simp add: fetch_entry_def py_eq_int_def py_ge_int_def selected_def fetched_def
      getDataset_def print_def py_str_def)

lemma fetched_fields [simp]:
  "calls (leg (fetched state state_id e c)) = calls (leg c) @ [fetch_call e]"
  "quota (leg (fetched state state_id e c)) = quota (leg c) - 1"
  "use_api (fetched state state_id e c) = use_api c"
  "fromyear (fetched state state_id e c) = fromyear c"
  "datasetlist (fetched state state_id e c) = datasetlist c"
  "hash_table (fetched state state_id e c) = hash_table c"
  "FOB_METHOD (fetched state state_id e c) = FOB_METHOD c"
  "stdout (fetched state state_id e c) =
     stdout c @ [''Fetching '' @ state @ '': '' @ show_int (sessionId e)]"
  "fob (fetched state state_id e c) =
     upload_text (dataset_reply (leg c) (JNum (sessionId e)) (JStr (accessKey e)))
       (Dataset_name state (JNum state_id)) (fob c)"
  by (simp_all add: fetched_def getDataset_def print_def fetch_call_def)

lemma fetch_loop_json:
  "\<exists>c'. fetch_loop state state_id (map entry_json es) c = (Inr (), c') \<and>
        calls (leg c') = calls (leg c) @
          map fetch_call
            (if use_api c then take (quota (leg c)) (filter (selected state_id (fromyear c)) es)
             else []) \<and>
        use_api c' = use_api c \<and> fromyear c' = fromyear c \<and>
        datasetlist c' = datasetlist c \<and> hash_table c' = hash_table c \<and>
        FOB_METHOD c' = FOB_METHOD c"
proof (induction es arbitrary: c)
  case Nil
  then show ?case by simp
next
  case (Cons e es)
  let ?c1 = "if selected state_id (fromyear c) e \<and> use_api c \<and> api_ok (leg c)
             then fetched state state_id e c else c"
  obtain c' where c': "fetch_loop state state_id (map entry_json es) ?c1 = (Inr (), c')"
    and rest: "calls (leg c') = calls (leg ?c1) @
          map fetch_call
            (if use_api ?c1 then take (quota (leg ?c1)) (filter (selected state_id (fromyear ?c1)) es)
             else [])"
      "use_api c' = use_api ?c1" "fromyear c' = fromyear ?c1"
      "datasetlist c' = datasetlist ?c1" "hash_table c' = hash_table ?c1"
      "FOB_METHOD c' = FOB_METHOD ?c1"
    using Cons.IH [of ?c1] by blast
  have step: "fetch_loop state state_id (map entry_json (e # es)) c = (Inr (), c')"
    using c' by (simp add: fetch_entry_json)
  show ?case
  proof (cases "selected state_id (fromyear c) e \<and> use_api c \<and> api_ok (leg c)")
    case True
    then obtain q where q: "quota (leg c) = Suc q"
      by (cases "quota (leg c)") (auto simp: api_ok_def)
    show ?thesis
      using step rest True q by simp
  next
    case False
    show ?thesis
    proof (cases "use_api c \<and> selected state_id (fromyear c) e")
      case True
      with False have "quota (leg c) = 0" by (simp add: api_ok_def)
      with step rest False True show ?thesis by simp
    next
      case False
      with step rest show ?thesis by auto
    qed
  qed
qed

subsection \<open>The loops on a list of manifest entries\<close>

lemma show_results_json:
  "show_results name (entry_json e) c =
     (Inr (), print (''Session '' @ show_int (sessionId e) @ '' Year: '' @ show_int (yearStart e) @
              ''-'' @ show_int (yearEnd e) @ '' Date: '' @ datasetDate e @ '' Size: '' @
              show_int (datasetSize e) @ '' bytes'') c)"
  by (simp add: show_results_def py_str_def)

lemma save_hash_json:
  "save_hash name (entry_json e) c =
     (Inr (), c\<lparr>hash_table := hash_table c @
        [\<lparr>item_name = name, fob_method = FOB_METHOD c, generated_date = JStr (datasetDate e),
          hashcode = JStr (datasetHash e), hsize = JNum (datasetSize e),
          desc = JStr (sessionName e)\<rparr>]\<rparr>)"
  by (simp add: save_hash_def)

lemma found_entry_json:
  "found_entry state state_id found_list (entry_json e) c =
     (Inr (), if selected state_id (fromyear c) e then found state found_list e c else c)"
  by (simp add: found_entry_def py_eq_int_def py_ge_int_def selected_def found_def
      show_results_json save_hash_json print_def report_lines_def ledger_row_def Let_def)

lemma found_fields [simp]:
  "stdout (found state found_list e c) = stdout c @ report_lines state found_list e"
  "hash_table (found state found_list e c) = hash_table c @ [ledger_row (FOB_METHOD c) state e]"
  "fob (found state found_list e c) = fob c"
  "leg (found state found_list e c) = leg c"
  "fromyear (found state found_list e c) = fromyear c"
  "datasetlist (found state found_list e c) = datasetlist c"
  "FOB_METHOD (found state found_list e c) = FOB_METHOD c"
  by (simp_all add: found_def)

lemma found_loop_json:
  "\<exists>c'. found_loop state state_id found_list (map entry_json es) c = (Inr (), c') \<and>
        hash_table c' = hash_table c @
          map (ledger_row (FOB_METHOD c) state) (filter (selected state_id (fromyear c)) es) \<and>
        stdout c' = stdout c @
          concat (map (report_lines state found_list) (filter (selected state_id (fromyear c)) es)) \<and>
        fob c' = fob c \<and> leg c' = leg c \<and> fromyear c' = fromyear c \<and>
        datasetlist c' = datasetlist c \<and> FOB_METHOD c' = FOB_METHOD c"
proof (induction es arbitrary: c)
  case Nil
  then show ?case by simp
next
  case (Cons e es)
  let ?c1 = "if selected state_id (fromyear c) e then found state found_list e c else c"
  from Cons.IH [of ?c1] obtain c' where
    c': "found_loop state state_id found_list (map entry_json es) ?c1 = (Inr (), c')"
    and rest: "hash_table c' = hash_table ?c1 @
          map (ledger_row (FOB_METHOD ?c1) state) (filter (selected state_id (fromyear ?c1)) es)"
      "stdout c' = stdout ?c1 @
          concat (map (report_lines state found_list) (filter (selected state_id (fromyear ?c1)) es))"
      "fob c' = fob ?c1" "leg c' = leg ?c1" "fromyear c' = fromyear ?c1"
      "datasetlist c' = datasetlist ?c1" "FOB_METHOD c' = FOB_METHOD ?c1"
    by blast
  have "found_loop state state_id found_list (map entry_json (e # es)) c = (Inr (), c')"
    using c' by (simp add: found_entry_json)
  with rest show ?case
    by (cases "selected state_id (fromyear c) e") simp_all
qed

text \<open>The rows and the lines of a whole run of \<^verbatim>\<open>datasets_found\<close>.\<close>

lemma datasets_found_json:
  "datasetlist c = JArr (map entry_json es) \<Longrightarrow>
   \<exists>c'. datasets_found states c = (Inr (), c') \<and>
        hash_table c' = hash_table c @
          concat (map (\<lambda>r. map (ledger_row (FOB_METHOD c) (fst r))
                              (filter (selected (snd r) (fromyear c)) es)) states) \<and>
        stdout c' = stdout c @
          concat (map (\<lambda>r. '' '' # concat (map (report_lines (fst r) (Dataset_items (fst r) (fob c)))
                              (filter (selected (snd r) (fromyear c)) es))) states) \<and>
        fob c' = fob c \<and> leg c' = leg c \<and> fromyear c' = fromyear c \<and>
        datasetlist c' = datasetlist c \<and> FOB_METHOD c' = FOB_METHOD c"
proof (induction states arbitrary: c)
  case Nil
  then show ?case by simp
next
  case (Cons r states)
  let ?c1 = "print '' '' c"
  have c1: "datasetlist ?c1 = JArr (map entry_json es)" "fob ?c1 = fob c" "leg ?c1 = leg c"
    "fromyear ?c1 = fromyear c" "FOB_METHOD ?c1 = FOB_METHOD c" "hash_table ?c1 = hash_table c"
    "stdout ?c1 = stdout c @ ['' '']"
    using Cons.prems by (simp_all add: print_def)
  have "\<exists>c2. found_loop (fst r) (snd r) (Dataset_items (fst r) (fob c)) (map entry_json es) ?c1 = (Inr (), c2) \<and>
      hash_table c2 = hash_table c @
          map (ledger_row (FOB_METHOD c) (fst r)) (filter (selected (snd r) (fromyear c)) es) \<and>
      stdout c2 = stdout c @ '' '' #
          concat (map (report_lines (fst r) (Dataset_items (fst r) (fob c)))
             (filter (selected (snd r) (fromyear c)) es)) \<and>
      fob c2 = fob c \<and> leg c2 = leg c \<and> fromyear c2 = fromyear c \<and>
      datasetlist c2 = datasetlist c \<and> FOB_METHOD c2 = FOB_METHOD c"
    using found_loop_json [of "fst r" "snd r" "Dataset_items (fst r) (fob c)" es ?c1]
    by (simp add: print_def)
  then obtain c2 where
    c2: "found_loop (fst r) (snd r) (Dataset_items (fst r) (fob c)) (map entry_json es) ?c1 = (Inr (), c2)"
    and f2: "hash_table c2 = hash_table c @
          map (ledger_row (FOB_METHOD c) (fst r)) (filter (selected (snd r) (fromyear c)) es)"
      "stdout c2 = stdout c @ '' '' #
          concat (map (report_lines (fst r) (Dataset_items (fst r) (fob c)))
             (filter (selected (snd r) (fromyear c)) es))"
      "fob c2 = fob c" "leg c2 = leg c" "fromyear c2 = fromyear c"
      "datasetlist c2 = datasetlist c" "FOB_METHOD c2 = FOB_METHOD c"
    by blast
  have d2: "datasetlist c2 = JArr (map entry_json es)"
    using f2 Cons.prems by simp
  from Cons.IH [OF d2] obtain c' where
    c': "datasets_found states c2 = (Inr (), c')"
    and f': "hash_table c' = hash_table c2 @
          concat (map (\<lambda>r. map (ledger_row (FOB_METHOD c2) (fst r))
                              (filter (selected (snd r) (fromyear c2)) es)) states)"
      "stdout c' = stdout c2 @
          concat (map (\<lambda>r. '' '' # concat (map (report_lines (fst r) (Dataset_items (fst r) (fob c2)))
                              (filter (selected (snd r) (fromyear c2)) es))) states)"
      "fob c' = fob c2" "leg c' = leg c2" "fromyear c' = fromyear c2"
      "datasetlist c' = datasetlist c2" "FOB_METHOD c' = FOB_METHOD c2"
    by blast
  have "datasets_found (r # states) c = (Inr (), c')"
    using c2 c' c1 Cons.prems by (simp add: Let_def py_iter_def)
  with f2 f' show ?case by simp
qed

subsection \<open>What each method leaves unchanged\<close>

lemma budget_fetched: "0 < quota (leg c) \<Longrightarrow> budget (fetched state state_id e c) = budget c"
  by (simp add: budget_def dataset_fetches_def fetch_call_def is_dataset_call_def)

lemma fetch_entry_frame:
  "fetch_entry state state_id entry c = (r, c') \<Longrightarrow>
     datasetlist c' = datasetlist c \<and> hash_table c' = hash_table c \<and>
     fromyear c' = fromyear c \<and> FOB_METHOD c' = FOB_METHOD c \<and> use_api c' = use_api c \<and>
     budget c' = budget c"
  by (auto simp: fetch_entry_def or_raise_def getDataset_def print_def api_ok_def budget_def
      dataset_fetches_def is_dataset_call_def Let_def split: sum.splits if_splits)

lemma fetch_loop_frame:
  "fetch_loop state state_id entries c = (r, c') \<Longrightarrow>
     datasetlist c' = datasetlist c \<and> hash_table c' = hash_table c \<and>
     fromyear c' = fromyear c \<and> FOB_METHOD c' = FOB_METHOD c \<and> use_api c' = use_api c \<and>
     budget c' = budget c"
proof (induction entries arbitrary: c)
  case Nil
  then show ?case by simp
next
  case (Cons entry entries)
  obtain r1 c1 where s1: "fetch_entry state state_id entry c = (r1, c1)"
    by (cases "fetch_entry state state_id entry c")
  note f1 = fetch_entry_frame [OF s1]
  show ?case
  proof (cases r1)
    case (Inl e)
    with Cons.prems s1 f1 show ?thesis by simp
  next
    case (Inr u)
    with Cons.prems s1 have "fetch_loop state state_id entries c1 = (r, c')" by simp
    from Cons.IH [OF this] f1 show ?thesis by simp
  qed
qed

lemma fetch_dataset_frame:
  "fetch_dataset state state_id c = (r, c') \<Longrightarrow>
     datasetlist c' = datasetlist c \<and> hash_table c' = hash_table c \<and>
     fromyear c' = fromyear c \<and> FOB_METHOD c' = FOB_METHOD c \<and> use_api c' = use_api c \<and>
     budget c' = budget c"
  by (cases "py_iter (datasetlist c)") (auto simp: fetch_dataset_def dest: fetch_loop_frame)

lemma handle_locations_frame:
  "handle_locations opts locs states c = (r, c') \<Longrightarrow>
     datasetlist c' = datasetlist c \<and> hash_table c' = hash_table c \<and>
     fromyear c' = fromyear c \<and> FOB_METHOD c' = FOB_METHOD c \<and> use_api c' = use_api c \<and>
     budget c' = budget c \<and>
     (\<forall>states'. r = Inr states' \<longrightarrow> states' = states @ map region_of locs)"
proof (induction locs arbitrary: states c)
  case Nil
  then show ?case by auto
next
  case (Cons loc locs)
  let ?state = "upper (shortname loc)"
  let ?states = "states @ [(?state, legiscan_id loc)]"
  show ?case
  proof (cases "truthy (opt_state opts) \<and> Some ?state \<noteq> opt_state opts")
    case True
    with Cons.prems have "handle_locations opts locs ?states c = (r, c')"
      by (simp add: Let_def)
    from Cons.IH [OF this] show ?thesis by (simp add: region_of_def)
  next
    case False
    let ?c1 = "print (''Processing: '' @ loc_desc loc @ '' ('' @ ?state @ '')'') c"
    obtain r2 c2 where s2: "fetch_dataset ?state (legiscan_id loc) ?c1 = (r2, c2)"
      by (cases "fetch_dataset ?state (legiscan_id loc) ?c1")
    have f2: "datasetlist c2 = datasetlist c \<and> hash_table c2 = hash_table c \<and>
       fromyear c2 = fromyear c \<and> FOB_METHOD c2 = FOB_METHOD c \<and> use_api c2 = use_api c \<and>
       budget c2 = budget c"
      using fetch_dataset_frame [OF s2]
      by (simp add: print_def budget_def dataset_fetches_def)
    show ?thesis
    proof (cases r2)
      case (Inl e)
      with Cons.prems False s2 f2 show ?thesis by (auto simp: Let_def)
    next
      case (Inr u)
      with Cons.prems False s2 have "handle_locations opts locs ?states c2 = (r, c')"
        by (auto simp: Let_def)
      from Cons.IH [OF this] f2 show ?thesis by (simp add: region_of_def)
    qed
  qed
qed

lemma api_refresh_frame:
  "hash_table (api_refresh now c) = hash_table c"
  "fromyear (api_refresh now c) = fromyear c"
  "FOB_METHOD (api_refresh now c) = FOB_METHOD c"
  "use_api (api_refresh now c) = use_api c"
  "datasetlist (api_refresh now c) = datasetlist c"
  "budget (api_refresh now c) \<le> budget c"
  by (simp_all add: api_refresh_def getDatasetList_def print_def Let_def budget_def
      dataset_fetches_def is_dataset_call_def split: option.splits)

lemma fob_download_frame:
  "fob_download c = (r, c') \<Longrightarrow>
     hash_table c' = hash_table c \<and> fromyear c' = fromyear c \<and> FOB_METHOD c' = FOB_METHOD c \<and>
     use_api c' = use_api c \<and> leg c' = leg c \<and> fob c' = fob c \<and> datasetlist c' = datasetlist c"
  by (auto simp: fob_download_def or_raise_def print_def Let_def split: option.splits sum.splits)

lemma verify_json_frame:
  "verify_json loads text c = (r, c') \<Longrightarrow>
     hash_table c' = hash_table c \<and> fromyear c' = fromyear c \<and> FOB_METHOD c' = FOB_METHOD c \<and>
     use_api c' = use_api c \<and> leg c' = leg c \<and> fob c' = fob c \<and> list_data c' = list_data c \<and>
     list_name c' = list_name c"
  by (auto simp: verify_json_def or_raise_def print_def Let_def
      split: option.splits sum.splits if_splits)

lemma not_found_frame:
  "not_found c = (r, c') \<Longrightarrow>
     hash_table c' = hash_table c \<and> fromyear c' = fromyear c \<and> FOB_METHOD c' = FOB_METHOD c \<and>
     use_api c' = use_api c \<and> leg c' = leg c \<and> fob c' = fob c \<and> list_data c' = list_data c \<and>
     datasetlist c' = datasetlist c \<and>
     r = Inl (CommandError ''API failure, or DatasetList not Found'')"
  by (auto simp: not_found_def print_def Let_def split: if_splits)

lemma recent_enough_frame:
  assumes "recent_enough loads now c = (r, c')"
  shows "hash_table c' = hash_table c \<and> fromyear c' = fromyear c \<and>
     FOB_METHOD c' = FOB_METHOD c \<and> use_api c' = use_api c \<and> budget c' \<le> budget c"
proof (cases "scan (DatasetList_items (fob c)) (long_ago, None)")
  case (Inl e)
  with assms show ?thesis by (simp add: recent_enough_def Let_def)
next
  case (Inr latest)
  let ?c1 = "c\<lparr>list_name := snd latest\<rparr>"
  let ?c2 = "if use_api ?c1 \<and> fst latest < now - timedelta_days 7 then api_refresh now ?c1 else ?c1"
  let ?s3 = "if truthy (snd latest) \<and> \<not> truthy (list_data ?c2) then fob_download ?c2
             else (Inr (), ?c2)"
  have f2: "hash_table ?c2 = hash_table c \<and> fromyear ?c2 = fromyear c \<and>
     FOB_METHOD ?c2 = FOB_METHOD c \<and> use_api ?c2 = use_api c \<and> budget ?c2 \<le> budget c"
    using api_refresh_frame [of now ?c1]
    by (simp add: budget_def dataset_fetches_def)
  obtain r3 c3 where s3: "?s3 = (r3, c3)" by (cases ?s3)
  have f3: "hash_table c3 = hash_table c \<and> fromyear c3 = fromyear c \<and>
     FOB_METHOD c3 = FOB_METHOD c \<and> use_api c3 = use_api c \<and> budget c3 \<le> budget c"
  proof (cases "truthy (snd latest) \<and> \<not> truthy (list_data ?c2)")
    case True
    with s3 have "fob_download ?c2 = (r3, c3)" by simp
    from fob_download_frame [OF this] f2 show ?thesis
      by (simp add: budget_def dataset_fetches_def)
  next
    case False
    with s3 f2 show ?thesis by auto
  qed
  let ?s4 = "case list_data c3 of None \<Rightarrow> (Inr (), c3)
     | Some text \<Rightarrow> if text \<noteq> [] then verify_json loads text c3 else (Inr (), c3)"
  obtain r4 c4 where s4: "?s4 = (r4, c4)" by (cases ?s4)
  have f4: "hash_table c4 = hash_table c \<and> fromyear c4 = fromyear c \<and>
     FOB_METHOD c4 = FOB_METHOD c \<and> use_api c4 = use_api c \<and> budget c4 \<le> budget c"
  proof (cases "list_data c3")
    case None
    with s4 f3 show ?thesis by auto
  next
    case (Some t)
    show ?thesis
    proof (cases "t = []")
      case True
      with Some s4 f3 show ?thesis by auto
    next
      case False
      with Some s4 have "verify_json loads t c3 = (r4, c4)" by simp
      from verify_json_frame [OF this] f3 show ?thesis
        by (simp add: budget_def dataset_fetches_def)
    qed
  qed
  have unfold: "recent_enough loads now c =
     and_then ?s3 (\<lambda>u c3. and_then
        (case list_data c3 of None \<Rightarrow> (Inr (), c3)
         | Some text \<Rightarrow> if text \<noteq> [] then verify_json loads text c3 else (Inr (), c3))
        (\<lambda>u c4. if \<not> truthy (list_data c4) then not_found c4 else (Inr None, c4)))"
    using Inr by (simp add: recent_enough_def Let_def)
  show ?thesis
  proof (cases r3)
    case (Inl e)
    with assms unfold s3 f3 show ?thesis by simp
  next
    case r3: (Inr u)
    show ?thesis
    proof (cases r4)
      case (Inl e)
      with assms unfold s3 r3 s4 f4 show ?thesis by simp
    next
      case r4: (Inr u4)
      show ?thesis
      proof (cases "truthy (list_data c4)")
        case True
        with assms unfold s3 r3 s4 r4 f4 show ?thesis by simp
      next
        case False
        with assms unfold s3 r3 s4 r4 have "not_found c4 = (r, c')" by simp
        from not_found_frame [OF this] f4 show ?thesis
          by (simp add: budget_def dataset_fetches_def)
      qed
    qed
  qed
qed

text \<open>
  The ledger phase only prints and saves rows: whatever does not depend on the output
  and on the \<^verbatim>\<open>Hash\<close> table is as before, also when the phase raises.
\<close>

lemma show_results_keeps:
  assumes "\<And>c s. P (c\<lparr>stdout := s\<rparr>) = P c"
    and "show_results name entry c = (r, c')"
  shows "P c' = P c"
  using assms(2)
  by (auto simp: show_results_def or_raise_def print_def Let_def assms(1) split: sum.splits)

lemma save_hash_keeps:
  assumes "\<And>c h. P (c\<lparr>hash_table := h\<rparr>) = P c"
    and "save_hash name entry c = (r, c')"
  shows "P c' = P c"
  using assms(2)
  by (auto simp: save_hash_def or_raise_def assms(1) split: sum.splits)

lemma shown_keeps:
  assumes "\<And>c s. P (c\<lparr>stdout := s\<rparr>) = P c"
    and "and_then (show_results name entry c) (\<lambda>u c'. (Inr (), print line c')) = (r1, c1)"
  shows "P c1 = P c"
  using assms(2)
  by (auto simp: and_then_def print_def assms(1) split: sum.splits prod.splits
      dest: show_results_keeps [of P, OF assms(1)])

lemma saved_keeps:
  assumes "\<And>c h. P (c\<lparr>hash_table := h\<rparr>) = P c"
    and "and_then s (\<lambda>u c'. save_hash name entry c') = (r1, c1)"
    and "\<And>r0 c0. s = (r0, c0) \<Longrightarrow> P c0 = P c"
  shows "P c1 = P c"
proof -
  obtain r0 c0 where s: "s = (r0, c0)" by (cases s)
  from assms(3) [OF s] have l0: "P c0 = P c" .
  show ?thesis
  proof (cases r0)
    case (Inl e)
    with assms(2) s l0 show ?thesis by simp
  next
    case (Inr u)
    with assms(2) s have "save_hash name entry c0 = (r1, c1)" by simp
    from save_hash_keeps [of P, OF assms(1) this] l0 show ?thesis by simp
  qed
qed

lemma found_entry_keeps:
  assumes out: "\<And>c s. P (c\<lparr>stdout := s\<rparr>) = P c"
    and tab: "\<And>c h. P (c\<lparr>hash_table := h\<rparr>) = P c"
    and "found_entry state state_id found_list entry c = (r, c')"
  shows "P c' = P c"
  using assms(3)
  apply (auto simp: found_entry_def or_raise_def Let_def split: sum.splits if_splits)
   apply (erule saved_keeps [of P, OF tab], erule shown_keeps [of P, OF out])
  apply (drule save_hash_keeps [of P, OF tab], simp add: print_def out)
  done

lemma found_loop_keeps:
  assumes out: "\<And>c s. P (c\<lparr>stdout := s\<rparr>) = P c"
    and tab: "\<And>c h. P (c\<lparr>hash_table := h\<rparr>) = P c"
  shows "found_loop state state_id found_list entries c = (r, c') \<Longrightarrow> P c' = P c"
proof (induction entries arbitrary: c)
  case Nil
  then show ?case by simp
next
  case (Cons entry entries)
  obtain r1 c1 where s1: "found_entry state state_id found_list entry c = (r1, c1)"
    by (cases "found_entry state state_id found_list entry c")
  note l1 = found_entry_keeps [of P, OF out tab s1]
  show ?case
  proof (cases r1)
    case (Inl e)
    with Cons.prems s1 l1 show ?thesis by simp
  next
    case (Inr u)
    with Cons.prems s1 have "found_loop state state_id found_list entries c1 = (r, c')" by simp
    from Cons.IH [OF this] l1 show ?thesis by simp
  qed
qed

lemma datasets_found_keeps:
  assumes out: "\<And>c s. P (c\<lparr>stdout := s\<rparr>) = P c"
    and tab: "\<And>c h. P (c\<lparr>hash_table := h\<rparr>) = P c"
  shows "datasets_found states c = (r, c') \<Longrightarrow> P c' = P c"
proof (induction states arbitrary: c)
  case Nil
  then show ?case by simp
next
  case (Cons sd states)
  let ?c1 = "print '' '' c"
  let ?s = "or_raise (py_iter (datasetlist ?c1)) ?c1
              (\<lambda>entries. found_loop (fst sd) (snd sd) (Dataset_items (fst sd) (fob ?c1)) entries ?c1)"
  obtain r1 c1 where s1: "?s = (r1, c1)" by (cases ?s)
  have l1: "P c1 = P c"
    using s1 by (cases "py_iter (datasetlist ?c1)")
      (auto simp: print_def out dest: found_loop_keeps [of P, OF out tab])
  have unfold: "datasets_found (sd # states) c = and_then ?s (\<lambda>u c'. datasets_found states c')"
    by (simp add: Let_def)
  show ?case
  proof (cases r1)
    case (Inl e)
    with Cons.prems unfold s1 l1 show ?thesis by simp
  next
    case (Inr u)
    with Cons.prems unfold s1 have "datasets_found states c1 = (r, c')" by simp
    from Cons.IH [OF this] l1 show ?thesis by simp
  qed
qed

lemma datasets_found_leg: "datasets_found states c = (r, c') \<Longrightarrow> leg c' = leg c"
  by (rule datasets_found_keeps [of leg]) simp_all

lemma datasets_found_datasetlist:
  "datasets_found states c = (r, c') \<Longrightarrow> datasetlist c' = datasetlist c"
  by (rule datasets_found_keeps [of datasetlist]) simp_all

subsection \<open>The fetch quota\<close>

lemma handle_budget: "budget (snd (handle loads now locations opts c)) \<le> budget c"
proof -
  let ?c3 = "set_options opts c"
  have b3: "budget ?c3 = budget c"
    by (simp add: budget_def dataset_fetches_def set_options_def Let_def)
  obtain r4 c4 where s4: "recent_enough loads now ?c3 = (r4, c4)"
    by (cases "recent_enough loads now ?c3")
  from recent_enough_frame [OF s4] b3 have b4: "budget c4 \<le> budget c" by simp
  have unfold: "handle loads now locations opts c =
      and_then (r4, c4) (\<lambda>r c4.
           and_then (handle_locations opts locations [] (c4\<lparr>list_data := r\<rparr>))
             (\<lambda>states c5. datasets_found states c5))"
    using s4 by (simp add: handle_def)
  show ?thesis
  proof (cases r4)
    case (Inl e)
    with unfold b4 show ?thesis by simp
  next
    case r4: (Inr r)
    obtain r5 c5 where s5: "handle_locations opts locations [] (c4\<lparr>list_data := r\<rparr>) = (r5, c5)"
      by (cases "handle_locations opts locations [] (c4\<lparr>list_data := r\<rparr>)")
    from handle_locations_frame [OF s5] b4 have b5: "budget c5 \<le> budget c"
      by (simp add: budget_def dataset_fetches_def)
    show ?thesis
    proof (cases r5)
      case (Inl e)
      with unfold r4 s5 b5 show ?thesis by simp
    next
      case (Inr states)
      obtain r6 c6 where s6: "datasets_found states c5 = (r6, c6)"
        by (cases "datasets_found states c5")
      from datasets_found_leg [OF s6] b5 have "budget c6 \<le> budget c"
        by (simp add: budget_def dataset_fetches_def)
      with unfold r4 s5 Inr s6 show ?thesis by simp
    qed
  qed
qed

text \<open>
  C8. A dataset is fetched only when remote fetching is enabled and the client reports
  that quota is available: otherwise an entry of the manifest is passed over with no
  exception, no output and no change of the state, and whatever the entry is, the client
  is not called. Over a whole run of \<^verbatim>\<open>handle\<close>, the dataset fetches made
  are at most the quota the client had when the run started.
\<close>

theorem quota_respect:
  "(\<not> (use_api c \<and> api_ok (leg c)) \<longrightarrow>
      fetch_entry state state_id (entry_json e) c = (Inr (), c)) \<and>
   (\<not> (use_api c \<and> api_ok (leg c)) \<longrightarrow>
      leg (snd (fetch_entry state state_id entry c)) = leg c) \<and>
   dataset_fetches (snd (handle loads now locations opts c0)) \<le>
     dataset_fetches c0 + quota (leg c0)"
proof (intro conjI impI)
  assume "\<not> (use_api c \<and> api_ok (leg c))"
  then show "fetch_entry state state_id (entry_json e) c = (Inr (), c)"
    by (auto simp: fetch_entry_json)
next
  assume "\<not> (use_api c \<and> api_ok (leg c))"
  then show "leg (snd (fetch_entry state state_id entry c)) = leg c"
    by (auto simp: fetch_entry_def or_raise_def Let_def split: sum.splits)
next
  have "dataset_fetches (snd (handle loads now locations opts c0)) \<le>
      budget (snd (handle loads now locations opts c0))"
    by (simp add: budget_def)
  also have "\<dots> \<le> budget c0" by (rule handle_budget)
  finally show "dataset_fetches (snd (handle loads now locations opts c0)) \<le>
     dataset_fetches c0 + quota (leg c0)"
    by (simp add: budget_def)
qed

theorem quota_respect_witness:
  "\<not> (use_api spent_command \<and> api_ok (leg spent_command)) \<and>
   fetch_entry ''AZ'' 5 (entry_json example_entry) spent_command = (Inr (), spent_command) \<and>
   leg (snd (fetch_entry ''AZ'' 5 (JStr ''x'') spent_command)) = leg spent_command \<and>
   dataset_fetches (snd (handle example_loads (mk_datetime 2024 1 3 12 0) [example_location]
      (example_options True 7) spent_command)) = 0"
proof -
  have h: "\<not> (use_api spent_command \<and> api_ok (leg spent_command))"
    by (simp add: spent_command_def init_def example_client_def api_ok_def)
  have z: "dataset_fetches spent_command + quota (leg spent_command) = 0"
    by (simp add: spent_command_def init_def example_client_def dataset_fetches_def)
  from quota_respect [of spent_command "''AZ''" 5 example_entry "JStr ''x''" example_loads
      "mk_datetime 2024 1 3 12 0" "[example_location]" "example_options True 7" spent_command]
    h z show ?thesis by simp
qed

subsection \<open>The ways through \<^verbatim>\<open>recent_enough\<close>\<close>

lemma recent_enough_scan:
  "scan (DatasetList_items (fob c)) (long_ago, None) = Inr (d, n) \<Longrightarrow>
   recent_enough loads now c =
     after_refresh loads n
       (if use_api c \<and> d < now - timedelta_days 7 then api_refresh now (c\<lparr>list_name := n\<rparr>)
        else c\<lparr>list_name := n\<rparr>)"
  unfolding recent_enough_def after_refresh_def Let_def
  by (simp only: or_raise_Inr fst_conv snd_conv) simp

lemma recent_enough_scan_raises:
  "scan (DatasetList_items (fob c)) (long_ago, None) = Inl e \<Longrightarrow>
   recent_enough loads now c = (Inl e, c)"
  by (simp add: recent_enough_def)

lemma verify_json_list_data:
  "list_data (snd (verify_json loads t c)) = list_data c"
  using verify_json_frame [of loads t c "fst (verify_json loads t c)" "snd (verify_json loads t c)"]
  by simp

text \<open>A text is held: it is verified, and the method returns \<^verbatim>\<open>None\<close>.\<close>

lemma after_refresh_held:
  assumes "list_data c2 = Some t" and "t \<noteq> []"
  shows "after_refresh loads n c2 = and_then (verify_json loads t c2) (\<lambda>u c4. (Inr None, c4))"
proof -
  obtain r4 c4 where v: "verify_json loads t c2 = (r4, c4)"
    by (cases "verify_json loads t c2")
  from verify_json_frame [OF v] assms have "truthy (list_data c4)"
    by (simp add: truthy_def)
  with v assms show ?thesis
    by (cases r4) (simp_all add: after_refresh_def truthy_def)
qed

text \<open>No text is held and the store has a latest DatasetList: it is downloaded.\<close>

lemma after_refresh_download:
  assumes "\<not> truthy (list_data c2)" and "name \<noteq> []" and "list_name c2 = Some name"
    and "map_of (fob c2) name = Some t" and "t \<noteq> []"
  shows "after_refresh loads (Some name) c2 =
     and_then (verify_json loads t ((print (''Downloading:  '' @ name) c2)\<lparr>list_data := Some t\<rparr>))
       (\<lambda>u c4. (Inr None, c4))"
proof -
  let ?c3 = "(print (''Downloading:  '' @ name) c2)\<lparr>list_data := Some t\<rparr>"
  have d: "fob_download c2 = (Inr (), ?c3)"
    using assms by (simp add: fob_download_def print_def str_opt_def download_text_def Let_def)
  obtain r4 c4 where v: "verify_json loads t ?c3 = (r4, c4)"
    by (cases "verify_json loads t ?c3")
  from verify_json_frame [OF v] assms have "truthy (list_data c4)"
    by (simp add: truthy_def)
  with v d assms show ?thesis
    by (cases r4) (simp_all add: after_refresh_def truthy_def)
qed

text \<open>No text is held and the store has no DatasetList: the method raises.\<close>

lemma after_refresh_nothing:
  assumes "\<not> truthy (list_data c2)"
  shows "after_refresh loads None c2 = not_found c2"
  using assms by (auto simp: after_refresh_def truthy_def split: option.splits)

text \<open>The four ways through the validation of lines 150 to 161.\<close>

lemma verify_json_ok:
  assumes "loads t = Inr pkg" and "py_in ''status'' pkg = Inr True"
    and "py_getitem pkg ''status'' = Inr (JStr ''OK'')"
    and "py_in ''datasetlist'' pkg = Inr True" and "py_getitem pkg ''datasetlist'' = Inr dl"
  shows "verify_json loads t c =
     (Inr (), (print (''Verifying JSON contents of:  '' @ str_opt (list_name c)) c)
                  \<lparr>list_pkg := pkg, datasetlist := dl\<rparr>)"
  using assms by (simp add: verify_json_def Let_def)

lemma verify_json_no_status:
  assumes "loads t = Inr pkg" and "py_in ''status'' pkg = Inr False"
  shows "verify_json loads t c =
     (Inr (), (print (''Verifying JSON contents of:  '' @ str_opt (list_name c)) c)
                  \<lparr>list_pkg := pkg\<rparr>)"
  using assms by (simp add: verify_json_def Let_def)

lemma verify_json_bad_status:
  assumes "loads t = Inr pkg" and "py_in ''status'' pkg = Inr True"
    and "py_getitem pkg ''status'' = Inr s" and "s \<noteq> JStr ''OK''" and "list_name c = Some name"
  shows "verify_json loads t c =
     (Inl (CommandError (''Status not OK: '' @ name)),
      (print (''Verifying JSON contents of:  '' @ name) c)\<lparr>list_pkg := pkg\<rparr>)"
  using assms by (simp add: verify_json_def Let_def print_def str_opt_def)

lemma verify_json_no_list:
  assumes "loads t = Inr pkg" and "py_in ''status'' pkg = Inr True"
    and "py_getitem pkg ''status'' = Inr (JStr ''OK'')"
    and "py_in ''datasetlist'' pkg = Inr False"
  shows "verify_json loads t c =
     (Inl (CommandError ''datsetlist missing''),
      (print (''Verifying JSON contents of:  '' @ str_opt (list_name c)) c)\<lparr>list_pkg := pkg\<rparr>)"
  using assms by (simp add: verify_json_def Let_def)

lemmas date_defs = mk_datetime_def ymd2ord_def days_before_year_def days_before_month_def
  days_in_month_def is_leap_def usec_per_day_def timedelta_days_def long_ago_def upto.simps

lemmas name_defs = DatasetList_search_def date_shape_def strptime_def digit_of_def
  DatasetList_items_def list_items_def startswith_def

lemma example_scan:
  "scan (DatasetList_items example_store) (long_ago, None) =
     Inr (mk_datetime 2024 1 1 0 0, Some ''DatasetList-2024-01-01.json'')"
  by (simp add: example_store_def name_defs date_defs)

lemma example_fresh: "\<not> mk_datetime 2024 1 1 0 0 < example_now - timedelta_days 7"
  by (simp add: example_now_def date_defs)

lemma example_manifest_fields:
  "example_loads ''manifest'' = Inr example_manifest"
  "py_in ''status'' example_manifest = Inr True"
  "py_getitem example_manifest ''status'' = Inr (JStr ''OK'')"
  "py_in ''datasetlist'' example_manifest = Inr True"
  "py_getitem example_manifest ''datasetlist'' = Inr (JArr [entry_json example_entry])"
  by (simp_all add: example_loads_def example_manifest_def py_in_def py_getitem_def)

text \<open>
  Scenario B: the DatasetList of 2024-01-01 is in the store and the command runs on
  2024-01-03 with \<^verbatim>\<open>--api\<close>. The cached manifest is used and the API is not called.
\<close>

lemma example_recent_enough:
  assumes "fob c = example_store" and "list_data c = None"
  shows "recent_enough example_loads example_now c =
     (Inr None,
      c\<lparr>list_name := Some ''DatasetList-2024-01-01.json'', list_data := Some ''manifest'',
        list_pkg := example_manifest, datasetlist := JArr [entry_json example_entry],
        stdout := stdout c @ [''Downloading:  DatasetList-2024-01-01.json'',
                              ''Verifying JSON contents of:  DatasetList-2024-01-01.json'']\<rparr>)"
proof -
  let ?name = "''DatasetList-2024-01-01.json''"
  let ?c2 = "c\<lparr>list_name := Some ?name\<rparr>"
  have s: "scan (DatasetList_items (fob c)) (long_ago, None) =
      Inr (mk_datetime 2024 1 1 0 0, Some ?name)"
    using assms(1) example_scan by simp
  have r: "recent_enough example_loads example_now c = after_refresh example_loads (Some ?name) ?c2"
    using recent_enough_scan [OF s, of example_loads example_now] example_fresh by simp
  have a: "after_refresh example_loads (Some ?name) ?c2 =
      and_then (verify_json example_loads ''manifest''
          ((print (''Downloading:  '' @ ?name) ?c2)\<lparr>list_data := Some ''manifest''\<rparr>))
        (\<lambda>u c4. (Inr None, c4))"
    by (rule after_refresh_download) (simp_all add: assms truthy_def example_store_def)
  show ?thesis
    unfolding r a
    by (simp add: verify_json_ok [of example_loads "''manifest''" example_manifest
        "JArr [entry_json example_entry]", OF example_manifest_fields] print_def str_opt_def)
qed

subsection \<open>The filter of the fetch and ledger phases, and the ledger of a run\<close>

text \<open>
  C6. For every entry of the manifest and every region, the entry is taken up by the
  fetch phase and by the ledger and report phase exactly when its \<^verbatim>\<open>state_id\<close> is the
  region's and its \<^verbatim>\<open>year_end\<close> is at least \<^verbatim>\<open>fromyear\<close>: the fetches of
  \<^verbatim>\<open>fetch_dataset\<close> are those of the selected entries, in order, as far as the quota
  goes (none without \<^verbatim>\<open>--api\<close>), and \<^verbatim>\<open>datasets_found\<close> saves one row and prints
  the report lines for each selected entry and for no other.
\<close>

theorem year_and_region_filter:
  assumes "datasetlist c = JArr (map entry_json es)"
  shows "\<exists>c1 c2.
     fetch_dataset state state_id c = (Inr (), c1) \<and>
     calls (leg c1) = calls (leg c) @
       map fetch_call
         (if use_api c then take (quota (leg c)) (filter (selected state_id (fromyear c)) es)
          else []) \<and>
     datasets_found [(state, state_id)] c = (Inr (), c2) \<and>
     hash_table c2 = hash_table c @
       map (ledger_row (FOB_METHOD c) state) (filter (selected state_id (fromyear c)) es) \<and>
     stdout c2 = stdout c @ '' '' #
       concat (map (report_lines state (Dataset_items state (fob c)))
                 (filter (selected state_id (fromyear c)) es))"
proof -
  from fetch_loop_json [of state state_id es c] obtain c1 where
    c1: "fetch_loop state state_id (map entry_json es) c = (Inr (), c1)"
      "calls (leg c1) = calls (leg c) @
         map fetch_call
           (if use_api c then take (quota (leg c)) (filter (selected state_id (fromyear c)) es)
            else [])"
    by blast
  have f: "fetch_dataset state state_id c = (Inr (), c1)"
    using assms c1(1) by (simp add: fetch_dataset_def py_iter_def)
  from datasets_found_json [OF assms, of "[(state, state_id)]"] obtain c2 where
    c2: "datasets_found [(state, state_id)] c = (Inr (), c2)"
      "hash_table c2 = hash_table c @
         map (ledger_row (FOB_METHOD c) state) (filter (selected state_id (fromyear c)) es)"
      "stdout c2 = stdout c @ '' '' #
         concat (map (report_lines state (Dataset_items state (fob c)))
                   (filter (selected state_id (fromyear c)) es))"
    by auto
  from f c1(2) c2 show ?thesis by blast
qed

lemma show_int_9001: "show_int 9001 = ''9001''"
  by (simp add: show_int_def show_nat.simps)

theorem year_and_region_filter_witness:
  "datasetlist example_command = JArr (map entry_json [example_entry, old_entry]) \<and>
   (\<exists>c1 c2.
      fetch_dataset ''AZ'' 5 example_command = (Inr (), c1) \<and>
      calls (leg c1) = [fetch_call example_entry] \<and>
      datasets_found [(''AZ'', 5)] example_command = (Inr (), c2) \<and>
      hash_table c2 = [ledger_row ''local'' ''AZ'' example_entry] \<and>
      stdout c2 = ['' '', ''Item not found:  AZ-9001.json''])"
proof -
  have h: "datasetlist example_command = JArr (map entry_json [example_entry, old_entry])"
    by (simp add: example_command_def)
  have sel: "filter (selected 5 2018) [example_entry, old_entry] = [example_entry]"
    by (simp add: selected_def example_entry_def old_entry_def)
  have rep: "report_lines ''AZ'' [] example_entry = [''Item not found:  AZ-9001.json'']"
    by (simp add: report_lines_def Dataset_name_def py_str_def example_entry_def show_int_9001)
  from year_and_region_filter [OF h, of "''AZ''" 5] h sel rep show ?thesis
    by (simp add: example_command_def init_def example_client_def Dataset_items_def
        list_items_def)
qed

text \<open>
  C7. In a run of \<^verbatim>\<open>handle\<close> that completes, the ledger phase appends to the
  \<^verbatim>\<open>Hash\<close> table one new row for every location and every entry of the manifest that
  is of that location and not older than \<^verbatim>\<open>fromyear\<close>, and nothing else: the rows
  saved before the run are kept as they are, and each new row has the entry's date, hash,
  size and session name, the storage method and the name of the dataset. Whether the
  dataset is in the store plays no part.
\<close>

theorem ledger_rows_of_a_run:
  assumes run: "handle loads now locations opts c = (Inr u, c')"
    and wf: "datasetlist c' = JArr (map entry_json es)"
  shows "hash_table c' = hash_table c @
     concat (map (\<lambda>loc. map (ledger_row (FOB_METHOD c) (upper (shortname loc)))
                           (filter (selected (legiscan_id loc) (fromyear c)) es)) locations)"
proof -
  let ?c3 = "set_options opts c"
  have f3: "hash_table ?c3 = hash_table c" "fromyear ?c3 = fromyear c"
    "FOB_METHOD ?c3 = FOB_METHOD c"
    by (simp_all add: set_options_def Let_def)
  obtain r4 c4 where s4: "recent_enough loads now ?c3 = (r4, c4)"
    by (cases "recent_enough loads now ?c3")
  have unfold: "handle loads now locations opts c =
      and_then (r4, c4) (\<lambda>r c4.
           and_then (handle_locations opts locations [] (c4\<lparr>list_data := r\<rparr>))
             (\<lambda>states c5. datasets_found states c5))"
    using s4 by (simp add: handle_def)
  from run unfold obtain r where r4: "r4 = Inr r"
    by (cases r4) auto
  obtain r5 c5 where s5: "handle_locations opts locations [] (c4\<lparr>list_data := r\<rparr>) = (r5, c5)"
    by (cases "handle_locations opts locations [] (c4\<lparr>list_data := r\<rparr>)")
  from run unfold r4 s5 obtain states where r5: "r5 = Inr states"
    by (cases r5) auto
  from run unfold r4 s5 r5 have s6: "datasets_found states c5 = (Inr u, c')"
    by simp
  from recent_enough_frame [OF s4] f3
  have f4: "hash_table c4 = hash_table c" "fromyear c4 = fromyear c" "FOB_METHOD c4 = FOB_METHOD c"
    by simp_all
  from handle_locations_frame [OF s5] r5 f4
  have f5: "hash_table c5 = hash_table c" "fromyear c5 = fromyear c" "FOB_METHOD c5 = FOB_METHOD c"
    and states: "states = map region_of locations"
    by simp_all
  from datasets_found_datasetlist [OF s6] wf have d5: "datasetlist c5 = JArr (map entry_json es)"
    by simp
  from datasets_found_json [OF d5, of states] s6
  have "hash_table c' = hash_table c5 @
          concat (map (\<lambda>r. map (ledger_row (FOB_METHOD c5) (fst r))
                              (filter (selected (snd r) (fromyear c5)) es)) states)"
    by auto
  with f5 states show ?thesis
    by (simp add: region_of_def comp_def)
qed

subsection \<open>A run on the example, and the name of an uploaded dataset\<close>

lemma example_run:
  "fst example_result = Inr () \<and>
   datasetlist (snd example_result) = JArr [entry_json example_entry] \<and>
   calls (leg (snd example_result)) = [fetch_call example_entry] \<and>
   map fst (fob (snd example_result)) = [''DatasetList-2024-01-01.json'', ''AZ-5.json''] \<and>
   stdout (snd example_result) =
     [''Downloading:  DatasetList-2024-01-01.json'',
      ''Verifying JSON contents of:  DatasetList-2024-01-01.json'',
      ''Processing: Arizona (AZ)'', ''Fetching AZ: 9001'', '' '',
      ''Item not found:  AZ-9001.json''] \<and>
   hash_table (snd example_result) = [ledger_row ''local'' ''AZ'' example_entry]"
proof -
  define c3 where
    "c3 = (init example_store (example_client 10 None) ''local'' [])\<lparr>use_api := True, frequency := 7\<rparr>"
  define c4 where
    "c4 = c3\<lparr>list_name := Some ''DatasetList-2024-01-01.json'', list_data := Some ''manifest'',
        list_pkg := example_manifest, datasetlist := JArr [entry_json example_entry],
        stdout := stdout c3 @ [''Downloading:  DatasetList-2024-01-01.json'',
                              ''Verifying JSON contents of:  DatasetList-2024-01-01.json'']\<rparr>"
  define c5 where "c5 = print ''Processing: Arizona (AZ)'' (c4\<lparr>list_data := None\<rparr>)"
  define c6 where "c6 = fetched ''AZ'' 5 example_entry c5"
  define c7 where "c7 = found ''AZ'' [''AZ-5.json''] example_entry (print '' '' c6)"
  have r: "recent_enough example_loads example_now c3 = (Inr None, c4)"
    unfolding c4_def by (rule example_recent_enough) (simp_all add: c3_def init_def)
  have c5_fields: "use_api c5" "api_ok (leg c5)" "fromyear c5 = 2018"
    "datasetlist c5 = JArr [entry_json example_entry]"
    by (simp_all add: c5_def c4_def c3_def init_def print_def example_client_def api_ok_def)
  have sel: "selected 5 2018 example_entry"
    by (simp add: selected_def example_entry_def)
  have f: "fetch_dataset ''AZ'' 5 c5 = (Inr (), c6)"
    using c5_fields sel by (simp add: fetch_dataset_def py_iter_def fetch_entry_json c6_def)
  have up: "upper ''az'' = ''AZ''"
    by (simp add: upper_def)
  have l: "handle_locations (example_options True 7) [example_location] [] (c4\<lparr>list_data := None\<rparr>) =
      (Inr [(''AZ'', 5)], c6)"
    using f by (simp add: Let_def example_location_def example_options_def truthy_def up c5_def)
  have store: "fob c6 = [(''DatasetList-2024-01-01.json'', ''manifest''), (''AZ-5.json'', ''dataset'')]"
    by (simp add: c6_def c5_def c4_def c3_def init_def print_def example_client_def example_store_def
        Dataset_name_def py_str_def show_int_def show_nat.simps)
  have items: "Dataset_items ''AZ'' (fob (print '' '' c6)) = [''AZ-5.json'']"
    using store by (simp add: print_def Dataset_items_def list_items_def startswith_def)
  have c6_fields: "fromyear (print '' '' c6) = 2018"
    "datasetlist (print '' '' c6) = JArr [entry_json example_entry]"
    using c5_fields by (simp_all add: c6_def print_def)
  have d: "datasets_found [(''AZ'', 5)] c6 = (Inr (), c7)"
    using items c6_fields sel
    by (simp add: Let_def py_iter_def found_entry_json c7_def)
  have h: "example_result = (Inr (), c7)"
    using r l d
    by (simp add: example_result_def handle_def set_options_def Let_def example_options_def
        truthy_def c3_def)
  have rep: "report_lines ''AZ'' [''AZ-5.json''] example_entry = [''Item not found:  AZ-9001.json'']"
    by (simp add: report_lines_def Dataset_name_def py_str_def example_entry_def show_int_9001)
  have out: "stdout c7 =
          [''Downloading:  DatasetList-2024-01-01.json'',
           ''Verifying JSON contents of:  DatasetList-2024-01-01.json'',
           ''Processing: Arizona (AZ)'', ''Fetching AZ: 9001'', '' '',
           ''Item not found:  AZ-9001.json'']"
    using rep
    by (simp add: c7_def c6_def c5_def c4_def c3_def init_def print_def example_entry_def
        show_int_9001)
  have rows: "hash_table c7 = [ledger_row ''local'' ''AZ'' example_entry]"
    by (simp add: c7_def c6_def c5_def c4_def c3_def init_def print_def)
  have cs: "calls (leg c7) = [fetch_call example_entry]"
    by (simp add: c7_def c6_def c5_def c4_def c3_def init_def print_def example_client_def)
  have dl: "datasetlist c7 = JArr [entry_json example_entry]"
    using c6_fields by (simp add: c7_def)
  have keys: "map fst (fob c7) = [''DatasetList-2024-01-01.json'', ''AZ-5.json'']"
    using store by (simp add: c7_def print_def)
  show ?thesis
    unfolding h by (simp only: fst_conv snd_conv dl cs keys out rows simp_thms)
qed

theorem ledger_rows_of_a_run_witness:
  "fst example_result = Inr () \<and>
   datasetlist (snd example_result) = JArr (map entry_json [example_entry]) \<and>
   hash_table (snd example_result) = [ledger_row ''local'' ''AZ'' example_entry]"
proof -
  have run: "handle example_loads example_now [example_location] (example_options True 7)
       (init example_store (example_client 10 None) ''local'' []) = (Inr (), snd example_result)"
    using example_run by (simp add: example_result_def [symmetric] prod_eq_iff)
  have wf: "datasetlist (snd example_result) = JArr (map entry_json [example_entry])"
    using example_run by simp
  have "hash_table (snd example_result) = [ledger_row ''local'' ''AZ'' example_entry]"
    using ledger_rows_of_a_run [OF run wf]
    by (simp add: init_def example_location_def upper_def selected_def example_entry_def)
  with example_run wf show ?thesis by simp
qed

text \<open>
  C10. A dataset that a run fetches and uploads should be found by the ledger and report
  phase of the same run. In the run on the example the dataset of session 9001 is fetched
  and uploaded under \<^verbatim>\<open>AZ-5.json\<close> (line 177 names it with the identifier of the
  region), and the report, which looks for \<^verbatim>\<open>AZ-9001.json\<close>, prints that the item was
  not found.
\<close>

theorem fetched_dataset_reported_missing:
  "fst example_result = Inr () \<and>
   calls (leg (snd example_result)) = [GetDataset (JNum 9001) (JStr ''key'')] \<and>
   map fst (fob (snd example_result)) = [''DatasetList-2024-01-01.json'', ''AZ-5.json''] \<and>
   stdout (snd example_result) =
     [''Downloading:  DatasetList-2024-01-01.json'',
      ''Verifying JSON contents of:  DatasetList-2024-01-01.json'',
      ''Processing: Arizona (AZ)'', ''Fetching AZ: 9001'', '' '',
      ''Item not found:  AZ-9001.json'']"
  using example_run by (simp add: fetch_call_def example_entry_def)

text \<open>
  C1. Every dataset that the fetch phase takes up should be uploaded under the name made
  of the region's code and the session's identifier, \<^verbatim>\<open>AZ-9001.json\<close> in Scenario C.
  Line 177 makes the name from the region's code and the region's identifier instead: in
  Scenario C the one fetch is made for session 9001 and its payload is uploaded under
  \<^verbatim>\<open>AZ-5.json\<close>, and the store has no \<^verbatim>\<open>AZ-9001.json\<close>.
\<close>

theorem scenario_C_upload_key:
  "fst (fetch_dataset ''AZ'' 5 example_command) = Inr () \<and>
   calls (leg (snd (fetch_dataset ''AZ'' 5 example_command))) =
     [GetDataset (JNum 9001) (JStr ''key'')] \<and>
   fob (snd (fetch_dataset ''AZ'' 5 example_command)) = [(''AZ-5.json'', ''dataset'')] \<and>
   Dataset_name ''AZ'' (JNum (sessionId example_entry)) = ''AZ-9001.json'' \<and>
   map_of (fob (snd (fetch_dataset ''AZ'' 5 example_command))) ''AZ-9001.json'' = None"
proof -
  have fields: "use_api example_command" "api_ok (leg example_command)"
    "fromyear example_command = 2018"
    "datasetlist example_command = JArr [entry_json example_entry, entry_json old_entry]"
    by (simp_all add: example_command_def init_def example_client_def api_ok_def)
  have sel: "selected 5 2018 example_entry" "\<not> selected 5 2018 old_entry"
    by (simp_all add: selected_def example_entry_def old_entry_def)
  have f: "fetch_dataset ''AZ'' 5 example_command = (Inr (), fetched ''AZ'' 5 example_entry example_command)"
    using fields sel by (simp add: fetch_dataset_def py_iter_def fetch_entry_json)
  show ?thesis
    unfolding f
    by (simp add: example_command_def init_def example_client_def fetch_call_def example_entry_def
        Dataset_name_def py_str_def show_int_def show_nat.simps)
qed

subsection \<open>The latest DatasetList of the store\<close>

lemma file_date_valid:
  "valid_name name \<Longrightarrow> DatasetList_search name = Some g \<Longrightarrow>
   \<exists>fd. strptime g = Inr fd \<and> file_date name = Some fd"
  by (auto simp: valid_name_def file_date_def split: sum.splits)

lemma file_date_none:
  "DatasetList_search name = None \<Longrightarrow> file_date name = None"
  by (simp add: file_date_def)

text \<open>
  The loop of lines 122 to 128 from any starting pair: it ends with a date that no date
  read from a name exceeds, and either with the pair it started from or with a later date
  and the name that carries it.
\<close>

lemma scan_latest:
  assumes "list_all valid_name names"
  shows "\<exists>d n. scan names (d0, n0) = Inr (d, n) \<and> d0 \<le> d \<and>
     (\<forall>name\<in>set names. \<forall>fd. file_date name = Some fd \<longrightarrow> fd \<le> d) \<and>
     ((d = d0 \<and> n = n0) \<or>
      (d0 < d \<and> (\<exists>name\<in>set names. n = Some name \<and> file_date name = Some d)))"
  using assms
proof (induction names arbitrary: d0 n0)
  case Nil
  then show ?case by simp
next
  case (Cons name names)
  then have v: "valid_name name" and vs: "list_all valid_name names" by simp_all
  show ?case
  proof (cases "DatasetList_search name")
    case None
    from Cons.IH [OF vs, of d0 n0] None file_date_none [OF None] show ?thesis
      by auto
  next
    case (Some g)
    from file_date_valid [OF v Some] obtain fd where
      fd: "strptime g = Inr fd" "file_date name = Some fd" by blast
    show ?thesis
    proof (cases "fd > d0")
      case True
      from Cons.IH [OF vs, of fd "Some name"] obtain d n where
        r: "scan names (fd, Some name) = Inr (d, n)" "fd \<le> d"
          "\<forall>name\<in>set names. \<forall>fd. file_date name = Some fd \<longrightarrow> fd \<le> d"
          "(d = fd \<and> n = Some name) \<or>
           (fd < d \<and> (\<exists>name\<in>set names. n = Some name \<and> file_date name = Some d))"
        by blast
      have s: "scan (name # names) (d0, n0) = Inr (d, n)"
        using Some fd True r(1) by simp
      from r(4) have "d0 < d \<and> (\<exists>name'\<in>set (name # names). n = Some name' \<and> file_date name' = Some d)"
      proof
        assume "d = fd \<and> n = Some name"
        with True fd show ?thesis by simp
      next
        assume "fd < d \<and> (\<exists>name\<in>set names. n = Some name \<and> file_date name = Some d)"
        with True show ?thesis by auto
      qed
      with s r(2,3) True fd show ?thesis by auto
    next
      case False
      from Cons.IH [OF vs, of d0 n0] obtain d n where
        r: "scan names (d0, n0) = Inr (d, n)" "d0 \<le> d"
          "\<forall>name\<in>set names. \<forall>fd. file_date name = Some fd \<longrightarrow> fd \<le> d"
          "(d = d0 \<and> n = n0) \<or>
           (d0 < d \<and> (\<exists>name\<in>set names. n = Some name \<and> file_date name = Some d))"
        by blast
      have s: "scan (name # names) (d0, n0) = Inr (d, n)"
        using Some fd False r(1) by simp
      from r(4) have "(d = d0 \<and> n = n0) \<or>
         (d0 < d \<and> (\<exists>name'\<in>set (name # names). n = Some name' \<and> file_date name' = Some d))"
        by auto
      with s r(2,3) False fd show ?thesis by auto
    qed
  qed
qed

text \<open>
  C9, as amended. When every name of the store that matches the DatasetList pattern
  carries a date of the calendar, the loop ends without raising, with a date that no date
  of a matching name exceeds. If it selects a name, the name is in the listing, matches
  the pattern, carries that latest date, and the date is later than the starting date
  1911-06-16 16:20. If it selects none (no name matches, or none is dated after the
  starting date), the latest date is the starting date, and the cache is stale for every
  \<open>now\<close> later than 1911-06-23 16:20.
\<close>

theorem latest_cached_manifest:
  assumes "list_all valid_name (DatasetList_items store)"
  shows "\<exists>d n. scan (DatasetList_items store) (long_ago, None) = Inr (d, n) \<and>
     (\<forall>name\<in>set (DatasetList_items store). \<forall>fd. file_date name = Some fd \<longrightarrow> fd \<le> d) \<and>
     (case n of
        None \<Rightarrow> d = long_ago \<and> (mk_datetime 1911 6 23 16 20 < now \<longrightarrow> d < now - timedelta_days 7)
      | Some name \<Rightarrow>
          name \<in> set (DatasetList_items store) \<and> file_date name = Some d \<and> long_ago < d)"
proof -
  from scan_latest [OF assms, of long_ago None] obtain d n where
    r: "scan (DatasetList_items store) (long_ago, None) = Inr (d, n)"
      "\<forall>name\<in>set (DatasetList_items store). \<forall>fd. file_date name = Some fd \<longrightarrow> fd \<le> d"
      "(d = long_ago \<and> n = None) \<or>
       (long_ago < d \<and>
        (\<exists>name\<in>set (DatasetList_items store). n = Some name \<and> file_date name = Some d))"
    by blast
  have week: "mk_datetime 1911 6 23 16 20 - timedelta_days 7 = long_ago"
    by (simp add: date_defs)
  from r(3) have "case n of
        None \<Rightarrow> d = long_ago \<and> (mk_datetime 1911 6 23 16 20 < now \<longrightarrow> d < now - timedelta_days 7)
      | Some name \<Rightarrow>
          name \<in> set (DatasetList_items store) \<and> file_date name = Some d \<and> long_ago < d"
    using week by (auto split: option.splits)
  with r(1,2) show ?thesis by blast
qed

lemma two_manifests_items:
  "DatasetList_items two_manifests = [''DatasetList-2023-12-25.json'', ''DatasetList-2024-01-01.json'']"
  by (simp add: two_manifests_def DatasetList_items_def list_items_def startswith_def)

lemma two_manifests_dates:
  "file_date ''DatasetList-2023-12-25.json'' = Some (mk_datetime 2023 12 25 0 0)"
  "file_date ''DatasetList-2024-01-01.json'' = Some (mk_datetime 2024 1 1 0 0)"
  by (simp_all add: file_date_def DatasetList_search_def date_shape_def strptime_def digit_of_def
      days_in_month_def is_leap_def)

theorem latest_cached_manifest_witness:
  "list_all valid_name (DatasetList_items two_manifests) \<and>
   scan (DatasetList_items two_manifests) (long_ago, None) =
     Inr (mk_datetime 2024 1 1 0 0, Some ''DatasetList-2024-01-01.json'') \<and>
   mk_datetime 2023 12 25 0 0 \<le> mk_datetime 2024 1 1 0 0 \<and>
   long_ago < mk_datetime 2024 1 1 0 0"
proof -
  have v: "list_all valid_name (DatasetList_items two_manifests)"
    by (simp add: two_manifests_items valid_name_def DatasetList_search_def date_shape_def
        strptime_def digit_of_def days_in_month_def is_leap_def)
  have e: "scan (DatasetList_items two_manifests) (long_ago, None) =
     Inr (mk_datetime 2024 1 1 0 0, Some ''DatasetList-2024-01-01.json'')"
    by (simp add: two_manifests_items DatasetList_search_def date_shape_def strptime_def
        digit_of_def date_defs)
  from latest_cached_manifest [OF v, of 0] obtain d n where
    r: "scan (DatasetList_items two_manifests) (long_ago, None) = Inr (d, n)"
      "\<forall>name\<in>set (DatasetList_items two_manifests). \<forall>fd. file_date name = Some fd \<longrightarrow> fd \<le> d"
      "case n of
        None \<Rightarrow> d = long_ago \<and> (mk_datetime 1911 6 23 16 20 < 0 \<longrightarrow> d < 0 - timedelta_days 7)
      | Some name \<Rightarrow>
          name \<in> set (DatasetList_items two_manifests) \<and> file_date name = Some d \<and> long_ago < d"
    by (elim exE conjE)
  from r(1) e have dn: "d = mk_datetime 2024 1 1 0 0" "n = Some ''DatasetList-2024-01-01.json''"
    by simp_all
  from r(2) have "mk_datetime 2023 12 25 0 0 \<le> d"
    by (simp add: two_manifests_items two_manifests_dates)
  moreover from r(3) dn have "long_ago < d" by simp
  ultimately show ?thesis using v e dn by simp
qed

text \<open>
  C9, as stated, fails on a store whose only DatasetList is dated before the starting date
  of the loop: the name matches the pattern and carries the latest date of the store, and
  no name is selected. It also fails on a store with a name that matches the pattern and
  carries no date of the calendar: the loop raises \<^verbatim>\<open>ValueError\<close>.
\<close>

theorem old_manifest_not_selected:
  "DatasetList_items ancient_store = [''DatasetList-1900-01-01.json''] \<and>
   DatasetList_search ''DatasetList-1900-01-01.json'' = Some ''1900-01-01'' \<and>
   file_date ''DatasetList-1900-01-01.json'' = Some (mk_datetime 1900 1 1 0 0) \<and>
   scan (DatasetList_items ancient_store) (long_ago, None) = Inr (long_ago, None) \<and>
   DatasetList_search ''DatasetList-2024-02-30.json'' = Some ''2024-02-30'' \<and>
   scan (DatasetList_items misdated_store) (long_ago, None) = Inl ValueError"
  by (simp add: ancient_store_def misdated_store_def file_date_def DatasetList_search_def
      date_shape_def strptime_def digit_of_def DatasetList_items_def list_items_def
      startswith_def date_defs)

subsection \<open>What \<^verbatim>\<open>recent_enough\<close> hands to its caller\<close>

text \<open>What a run of the validation that does not raise has established.\<close>

lemma verify_json_success:
  assumes "verify_json loads t c = (Inr u, c')"
  shows "loads t = Inr (list_pkg c') \<and> list_data c' = list_data c \<and>
     (py_in ''status'' (list_pkg c') = Inr True \<longrightarrow>
        py_getitem (list_pkg c') ''status'' = Inr (JStr ''OK'') \<and>
        py_in ''datasetlist'' (list_pkg c') = Inr True \<and>
        py_getitem (list_pkg c') ''datasetlist'' = Inr (datasetlist c'))"
  using assms
  by (auto simp: verify_json_def or_raise_def Let_def print_def
      split: sum.splits if_splits option.splits)

lemma after_refresh_success:
  assumes "after_refresh loads n c2 = (Inr r, c')"
  shows "r = None \<and> (\<exists>t c3. t \<noteq> [] \<and> list_data c3 = Some t \<and>
     verify_json loads t c3 = (Inr (), c'))"
proof -
  let ?s3 = "if truthy n \<and> \<not> truthy (list_data c2) then fob_download c2 else (Inr (), c2)"
  obtain r3 c3 where s3: "?s3 = (r3, c3)" by (cases ?s3)
  let ?s4 = "case list_data c3 of None \<Rightarrow> (Inr (), c3)
     | Some text \<Rightarrow> if text \<noteq> [] then verify_json loads text c3 else (Inr (), c3)"
  obtain r4 c4 where s4: "?s4 = (r4, c4)" by (cases ?s4)
  have unfold: "after_refresh loads n c2 =
      and_then (r3, c3) (\<lambda>u c3. and_then
        (case list_data c3 of None \<Rightarrow> (Inr (), c3)
         | Some text \<Rightarrow> if text \<noteq> [] then verify_json loads text c3 else (Inr (), c3))
        (\<lambda>u c4. if \<not> truthy (list_data c4) then not_found c4 else (Inr None, c4)))"
    using s3 by (simp add: after_refresh_def)
  from assms unfold obtain u3 where r3: "r3 = Inr u3" by (cases r3) auto
  from assms unfold r3 s4 obtain u4 where r4: "r4 = Inr u4" by (cases r4) auto
  from assms unfold r3 s4 r4
  have last: "(if \<not> truthy (list_data c4) then not_found c4 else (Inr None, c4)) = (Inr r, c')"
    by simp
  have held: "truthy (list_data c4)"
  proof (rule ccontr)
    assume "\<not> truthy (list_data c4)"
    with last have "not_found c4 = (Inr r, c')" by simp
    from not_found_frame [OF this] show False by simp
  qed
  with last have res: "r = None" "c' = c4" by simp_all
  show ?thesis
  proof (cases "list_data c3")
    case None
    with s4 held show ?thesis by (simp add: truthy_def)
  next
    case (Some t)
    show ?thesis
    proof (cases "t = []")
      case True
      with Some s4 held show ?thesis by (auto simp: truthy_def)
    next
      case False
      with Some s4 r4 res have "verify_json loads t c3 = (Inr (), c')" by simp
      with Some False res show ?thesis by blast
    qed
  qed
qed

text \<open>
  C4, as amended. \<^verbatim>\<open>recent_enough\<close> returns \<^verbatim>\<open>None\<close>. Whenever it does not
  raise, a manifest text is held in \<^verbatim>\<open>self.list_data\<close>, \<^verbatim>\<open>self.list_pkg\<close> is
  what the text parses to, and if that package has a status, the status is
  \<^verbatim>\<open>OK\<close> and the package's \<^verbatim>\<open>datasetlist\<close> is in \<^verbatim>\<open>self.datasetlist\<close>,
  where the fetch and ledger phases read it.
\<close>

theorem resolver_result:
  assumes "recent_enough loads now c = (Inr r, c')"
  shows "r = None \<and>
     (\<exists>t. list_data c' = Some t \<and> t \<noteq> [] \<and> loads t = Inr (list_pkg c')) \<and>
     (py_in ''status'' (list_pkg c') = Inr True \<longrightarrow>
        py_getitem (list_pkg c') ''status'' = Inr (JStr ''OK'') \<and>
        py_getitem (list_pkg c') ''datasetlist'' = Inr (datasetlist c'))"
proof (cases "scan (DatasetList_items (fob c)) (long_ago, None)")
  case (Inl e)
  from recent_enough_scan_raises [OF Inl, of loads now] assms show ?thesis by simp
next
  case (Inr latest)
  obtain d n where latest: "latest = (d, n)" by (cases latest)
  from recent_enough_scan [of c d n loads now] Inr latest assms
  have "after_refresh loads n
       (if use_api c \<and> d < now - timedelta_days 7 then api_refresh now (c\<lparr>list_name := n\<rparr>)
        else c\<lparr>list_name := n\<rparr>) = (Inr r, c')"
    by simp
  from after_refresh_success [OF this] obtain t c3 where
    r: "r = None" and t: "t \<noteq> []" "list_data c3 = Some t"
    and v: "verify_json loads t c3 = (Inr (), c')"
    by blast
  from verify_json_success [OF v] r t show ?thesis by simp
qed

lemma example_resolved_value:
  "example_resolved =
     (Inr None,
      (init example_store (example_client 10 None) ''local'' [])
        \<lparr>list_name := Some ''DatasetList-2024-01-01.json'', list_data := Some ''manifest'',
         list_pkg := example_manifest, datasetlist := JArr [entry_json example_entry],
         stdout := [''Downloading:  DatasetList-2024-01-01.json'',
                    ''Verifying JSON contents of:  DatasetList-2024-01-01.json'']\<rparr>)"
  unfolding example_resolved_def
  using example_recent_enough [of "init example_store (example_client 10 None) ''local'' []"]
  by (simp add: init_def)

theorem resolver_result_witness:
  "example_resolved = (Inr None, snd example_resolved) \<and>
   list_data (snd example_resolved) = Some ''manifest'' \<and>
   example_loads ''manifest'' = Inr (list_pkg (snd example_resolved)) \<and>
   py_in ''status'' (list_pkg (snd example_resolved)) = Inr True \<and>
   py_getitem (list_pkg (snd example_resolved)) ''datasetlist'' =
     Inr (datasetlist (snd example_resolved))"
proof -
  have run: "recent_enough example_loads example_now
       (init example_store (example_client 10 None) ''local'' []) = (Inr None, snd example_resolved)"
  proof -
    have "fst example_resolved = Inr None" by (simp add: example_resolved_value)
    then show ?thesis by (simp add: example_resolved_def [symmetric] prod_eq_iff)
  qed
  have st: "py_in ''status'' (list_pkg (snd example_resolved)) = Inr True"
    "list_data (snd example_resolved) = Some ''manifest''"
    by (simp_all add: example_resolved_value example_manifest_fields)
  from resolver_result [OF run] st run show ?thesis
    by (simp add: example_resolved_def [symmetric])
qed

text \<open>
  C4, as stated, fails in Scenario B: \<^verbatim>\<open>recent_enough\<close> does not raise and returns
  \<^verbatim>\<open>None\<close>, while the parsed collection, with the entry of Scenario C, is in
  \<^verbatim>\<open>self.datasetlist\<close>.
\<close>

theorem resolver_returns_none:
  "fst example_resolved = Inr None \<and>
   datasetlist (snd example_resolved) = JArr [entry_json example_entry]"
  by (simp add: example_resolved_value)

subsection \<open>No fresh DatasetList: the cached one, or none\<close>

lemma scan_selected:
  "scan names (d0, n0) = Inr (d, Some name) \<Longrightarrow>
   n0 = Some name \<or> (name \<in> set names \<and> DatasetList_search name \<noteq> None)"
proof (induction names arbitrary: d0 n0)
  case Nil
  then show ?case by simp
next
  case (Cons a names)
  show ?case
  proof (cases "DatasetList_search a")
    case None
    with Cons.prems have "scan names (d0, n0) = Inr (d, Some name)" by simp
    from Cons.IH [OF this] show ?thesis by auto
  next
    case (Some g)
    show ?thesis
    proof (cases "strptime g")
      case (Inl e)
      with Some Cons.prems show ?thesis by simp
    next
      case (Inr fd)
      show ?thesis
      proof (cases "fd > d0")
        case True
        with Some Inr Cons.prems have "scan names (fd, Some a) = Inr (d, Some name)" by simp
        from Cons.IH [OF this] Some show ?thesis by auto
      next
        case False
        with Some Inr Cons.prems have "scan names (d0, n0) = Inr (d, Some name)" by simp
        from Cons.IH [OF this] show ?thesis by auto
      qed
    qed
  qed
qed

lemma search_nonempty: "DatasetList_search name \<noteq> None \<Longrightarrow> name \<noteq> []"
  by (auto simp: DatasetList_search_def Let_def split: if_splits)

lemma items_in_store:
  "name \<in> set (DatasetList_items store) \<Longrightarrow> \<exists>t. map_of store name = Some t"
proof -
  assume "name \<in> set (DatasetList_items store)"
  then have "name \<in> fst ` set store"
    by (auto simp: DatasetList_items_def list_items_def)
  then have "map_of store name \<noteq> None"
    by (simp add: map_of_eq_None_iff)
  then show ?thesis by auto
qed

lemma api_refresh_failed:
  "\<not> truthy (manifest_reply (leg c)) \<Longrightarrow>
   api_refresh now c =
     print ''API Failed to get DatasetList from Legiscan''
       (c\<lparr>leg := snd (getDatasetList ''Good'' (leg c)), list_data := manifest_reply (leg c)\<rparr>)"
  by (auto simp: api_refresh_def getDatasetList_def truthy_def Let_def split: option.splits)

lemma verify_json_stdout:
  "verify_json loads t c = (r, c') \<Longrightarrow> \<exists>ys. stdout c' = stdout c @ ys"
  by (auto simp: verify_json_def or_raise_def print_def Let_def
      split: option.splits sum.splits if_splits)

lemma not_found_stdout:
  "not_found c = (r, c') \<Longrightarrow> \<exists>ys. stdout c' = stdout c @ ys"
  by (auto simp: not_found_def print_def Let_def split: if_splits)

text \<open>The downloaded DatasetList is empty: nothing is verified and the method raises.\<close>

lemma after_refresh_download_empty:
  assumes "\<not> truthy (list_data c2)" and "name \<noteq> []" and "list_name c2 = Some name"
    and "map_of (fob c2) name = Some []"
  shows "after_refresh loads (Some name) c2 =
     not_found ((print (''Downloading:  '' @ name) c2)\<lparr>list_data := Some []\<rparr>)"
proof -
  have "fob_download c2 = (Inr (), (print (''Downloading:  '' @ name) c2)\<lparr>list_data := Some []\<rparr>)"
    using assms by (simp add: fob_download_def print_def str_opt_def download_text_def Let_def)
  with assms show ?thesis
    by (simp add: after_refresh_def truthy_def)
qed

text \<open>
  No fresh DatasetList was obtained (the API was not called, or it gave nothing): what
  \<^verbatim>\<open>recent_enough\<close> prints first, the text it holds at the end, and how it ends.
\<close>

lemma no_fresh_manifest:
  assumes fresh: "list_data c = None"
    and s: "scan (DatasetList_items (fob c)) (long_ago, None) = Inr (d, n)"
    and nofresh: "\<not> (use_api c \<and> d < now - timedelta_days 7 \<and> truthy (manifest_reply (leg c)))"
  shows "(\<exists>ys. stdout (snd (recent_enough loads now c)) =
        stdout c @
        (if use_api c \<and> d < now - timedelta_days 7
         then [''API Failed to get DatasetList from Legiscan''] else []) @
        (case n of None \<Rightarrow> [] | Some name \<Rightarrow> [''Downloading:  '' @ name]) @ ys) \<and>
     (\<forall>name. n = Some name \<longrightarrow>
        (\<exists>t. map_of (fob c) name = Some t \<and>
             list_data (snd (recent_enough loads now c)) = Some t)) \<and>
     (\<not> truthy (list_data (snd (recent_enough loads now c))) \<longrightarrow>
        fst (recent_enough loads now c) =
          Inl (CommandError ''API failure, or DatasetList not Found'')) \<and>
     (n = None \<longrightarrow> \<not> truthy (list_data (snd (recent_enough loads now c))))"
proof -
  let ?refresh = "use_api c \<and> d < now - timedelta_days 7"
  let ?c1 = "c\<lparr>list_name := n\<rparr>"
  let ?c2 = "if ?refresh then api_refresh now ?c1 else ?c1"
  let ?said = "if ?refresh then [''API Failed to get DatasetList from Legiscan''] else []"
  have r: "recent_enough loads now c = after_refresh loads n ?c2"
    by (rule recent_enough_scan [OF s])
  have c2: "\<not> truthy (list_data ?c2)" "stdout ?c2 = stdout c @ ?said" "fob ?c2 = fob c"
    "list_name ?c2 = n"
    using fresh nofresh
    by (auto simp: api_refresh_failed print_def truthy_def)
  show ?thesis
  proof (cases n)
    case None
    have a: "after_refresh loads None ?c2 = not_found ?c2"
      using c2(1) by (rule after_refresh_nothing)
    obtain r' c' where nf: "not_found ?c2 = (r', c')" by (cases "not_found ?c2")
    from not_found_frame [OF nf] not_found_stdout [OF nf] c2 None r a nf
    show ?thesis by auto
  next
    case (Some name)
    from scan_selected [of "DatasetList_items (fob c)" long_ago None d name] s Some
    have mem: "name \<in> set (DatasetList_items (fob c))" and "DatasetList_search name \<noteq> None"
      by simp_all
    then have ne: "name \<noteq> []" by (simp add: search_nonempty)
    from items_in_store [OF mem] obtain t where t: "map_of (fob c) name = Some t" by blast
    let ?c3 = "(print (''Downloading:  '' @ name) ?c2)\<lparr>list_data := Some t\<rparr>"
    have c3: "stdout ?c3 = stdout c @ ?said @ [''Downloading:  '' @ name]"
      "list_data ?c3 = Some t"
      using c2(2) by (simp_all add: print_def)
    show ?thesis
    proof (cases "t = []")
      case True
      have a: "after_refresh loads (Some name) ?c2 = not_found ?c3"
        using c2 ne t True Some
        by (simp add: after_refresh_download_empty [of ?c2 name loads])
      obtain r' c' where nf: "not_found ?c3 = (r', c')" by (cases "not_found ?c3")
      from not_found_frame [OF nf] not_found_stdout [OF nf] c3 Some r a nf t True
      show ?thesis by (auto simp: truthy_def)
    next
      case False
      have a: "after_refresh loads (Some name) ?c2 =
          and_then (verify_json loads t ?c3) (\<lambda>u c4. (Inr None, c4))"
        using c2 ne t False Some
        by (simp add: after_refresh_download [of ?c2 name t loads])
      obtain r' c' where v: "verify_json loads t ?c3 = (r', c')"
        by (cases "verify_json loads t ?c3")
      from verify_json_frame [OF v] c3 have ld: "list_data c' = Some t" by simp
      from verify_json_stdout [OF v] c3 obtain ys where
        out: "stdout c' = stdout c @ ?said @ [''Downloading:  '' @ name] @ ys" by auto
      have res: "snd (recent_enough loads now c) = c'"
        using r a v Some by (cases r') simp_all
      from res ld out Some t False show ?thesis
        by (auto simp: truthy_def)
    qed
  qed
qed

lemma handle_aborts:
  "fst (recent_enough loads now (set_options opts c)) = Inl e \<Longrightarrow>
   handle loads now locations opts c =
     (Inl e, snd (recent_enough loads now (set_options opts c)))"
  by (cases "recent_enough loads now (set_options opts c)") (simp add: handle_def)

text \<open>
  C5. When no fresh DatasetList is obtained (the API is not called, or it is called and
  gives \<^verbatim>\<open>None\<close> or an empty text), \<^verbatim>\<open>recent_enough\<close> first prints that the API
  failed, if it was called, and then downloads the latest cached DatasetList, if the store
  has one: that text is what it holds at the end. If it holds no text at the end, and in
  particular if the store has no DatasetList, it raises the
  \<^verbatim>\<open>CommandError\<close> of line 167. An exception of \<^verbatim>\<open>recent_enough\<close> ends
  \<^verbatim>\<open>handle\<close> with that exception, in the state \<^verbatim>\<open>recent_enough\<close> left.
\<close>

theorem manifest_fallback_and_unavailable:
  assumes "list_data c = None"
    and "scan (DatasetList_items (fob c)) (long_ago, None) = Inr (d, n)"
    and "\<not> (use_api c \<and> d < now - timedelta_days 7 \<and> truthy (manifest_reply (leg c)))"
  shows "(\<exists>ys. stdout (snd (recent_enough loads now c)) =
        stdout c @
        (if use_api c \<and> d < now - timedelta_days 7
         then [''API Failed to get DatasetList from Legiscan''] else []) @
        (case n of None \<Rightarrow> [] | Some name \<Rightarrow> [''Downloading:  '' @ name]) @ ys) \<and>
     (\<forall>name. n = Some name \<longrightarrow>
        (\<exists>t. map_of (fob c) name = Some t \<and>
             list_data (snd (recent_enough loads now c)) = Some t)) \<and>
     (\<not> truthy (list_data (snd (recent_enough loads now c))) \<longrightarrow>
        fst (recent_enough loads now c) =
          Inl (CommandError ''API failure, or DatasetList not Found'')) \<and>
     (n = None \<longrightarrow>
        fst (recent_enough loads now c) =
          Inl (CommandError ''API failure, or DatasetList not Found'')) \<and>
     (\<forall>e. fst (recent_enough loads now (set_options opts c0)) = Inl e \<longrightarrow>
        handle loads now locations opts c0 =
          (Inl e, snd (recent_enough loads now (set_options opts c0))))"
proof -
  note nf = no_fresh_manifest [OF assms, of loads]
  from nf have "n = None \<longrightarrow>
      fst (recent_enough loads now c) = Inl (CommandError ''API failure, or DatasetList not Found'')"
    by blast
  moreover have "\<forall>e. fst (recent_enough loads now (set_options opts c0)) = Inl e \<longrightarrow>
        handle loads now locations opts c0 =
          (Inl e, snd (recent_enough loads now (set_options opts c0)))"
    by (simp add: handle_aborts)
  ultimately show ?thesis using nf by blast
qed

theorem manifest_fallback_and_unavailable_witness:
  "(\<exists>ys. stdout (snd failed_refresh) =
      [''API Failed to get DatasetList from Legiscan'',
       ''Downloading:  DatasetList-2024-01-01.json''] @ ys) \<and>
   list_data (snd failed_refresh) = Some ''manifest'' \<and>
   fst scenario_A = Inl (CommandError ''API failure, or DatasetList not Found'')"
proof -
  let ?c = "(init example_store (example_client 10 None) ''local'' [])\<lparr>use_api := True\<rparr>"
  let ?name = "''DatasetList-2024-01-01.json''"
  have p1: "list_data ?c = None" by (simp add: init_def)
  have p2: "scan (DatasetList_items (fob ?c)) (long_ago, None) =
      Inr (mk_datetime 2024 1 1 0 0, Some ?name)"
    using example_scan by (simp add: init_def)
  have p3: "\<not> (use_api ?c \<and> mk_datetime 2024 1 1 0 0 < mk_datetime 2024 1 20 12 0 - timedelta_days 7 \<and>
      truthy (manifest_reply (leg ?c)))"
    by (simp add: init_def example_client_def truthy_def)
  have stale: "mk_datetime 2024 1 1 0 0 < mk_datetime 2024 1 20 12 0 - timedelta_days 7"
    by (simp add: date_defs)
  have held: "map_of (fob ?c) ?name = Some ''manifest''"
    by (simp add: init_def example_store_def)
  note w1 = manifest_fallback_and_unavailable [OF p1 p2 p3, of example_loads]
  have fields: "stdout ?c = []" "use_api ?c"
    by (simp_all add: init_def)
  from w1 stale fields have out: "\<exists>ys. stdout (snd failed_refresh) =
      [''API Failed to get DatasetList from Legiscan'',
       ''Downloading:  DatasetList-2024-01-01.json''] @ ys"
    by (simp add: failed_refresh_def)
  from w1 held have held_text: "list_data (snd failed_refresh) = Some ''manifest''"
    by (simp add: failed_refresh_def)
  let ?c0 = "init [] (example_client 10 None) ''local'' []"
  let ?a = "set_options (example_options False 7) ?c0"
  have q1: "list_data ?a = None"
    by (simp add: set_options_def example_options_def truthy_def init_def Let_def)
  have q2: "scan (DatasetList_items (fob ?a)) (long_ago, None) = Inr (long_ago, None)"
    by (simp add: set_options_def example_options_def truthy_def init_def Let_def
        DatasetList_items_def list_items_def)
  have q3: "\<not> (use_api ?a \<and> long_ago < example_now - timedelta_days 7 \<and>
      truthy (manifest_reply (leg ?a)))"
    by (simp add: set_options_def example_options_def truthy_def init_def Let_def)
  note w2 = manifest_fallback_and_unavailable [OF q1 q2 q3, of example_loads
      "example_options False 7" ?c0 "[example_location]"]
  from w2 have "fst (recent_enough example_loads example_now ?a) =
      Inl (CommandError ''API failure, or DatasetList not Found'')"
    by simp
  with w2 have "fst scenario_A = Inl (CommandError ''API failure, or DatasetList not Found'')"
    by (simp add: scenario_A_def)
  with out held_text show ?thesis by simp
qed

subsection \<open>When the API is asked for a DatasetList, and a manifest without a status\<close>

lemma after_refresh_leg:
  assumes "after_refresh loads n c2 = (r, c')"
  shows "leg c' = leg c2"
proof -
  let ?s3 = "if truthy n \<and> \<not> truthy (list_data c2) then fob_download c2 else (Inr (), c2)"
  obtain r3 c3 where s3: "?s3 = (r3, c3)" by (cases ?s3)
  have l3: "leg c3 = leg c2"
  proof (cases "truthy n \<and> \<not> truthy (list_data c2)")
    case True
    with s3 have "fob_download c2 = (r3, c3)" by simp
    from fob_download_frame [OF this] show ?thesis by simp
  next
    case False
    with s3 show ?thesis by auto
  qed
  let ?s4 = "case list_data c3 of None \<Rightarrow> (Inr (), c3)
     | Some text \<Rightarrow> if text \<noteq> [] then verify_json loads text c3 else (Inr (), c3)"
  obtain r4 c4 where s4: "?s4 = (r4, c4)" by (cases ?s4)
  have l4: "leg c4 = leg c3"
  proof (cases "list_data c3")
    case None
    with s4 show ?thesis by simp
  next
    case (Some t)
    show ?thesis
    proof (cases "t = []")
      case True
      with Some s4 show ?thesis by simp
    next
      case False
      with Some s4 have "verify_json loads t c3 = (r4, c4)" by simp
      from verify_json_frame [OF this] show ?thesis by simp
    qed
  qed
  have unfold: "after_refresh loads n c2 =
      and_then (r3, c3) (\<lambda>u c3. and_then
        (case list_data c3 of None \<Rightarrow> (Inr (), c3)
         | Some text \<Rightarrow> if text \<noteq> [] then verify_json loads text c3 else (Inr (), c3))
        (\<lambda>u c4. if \<not> truthy (list_data c4) then not_found c4 else (Inr None, c4)))"
    using s3 by (simp add: after_refresh_def)
  show ?thesis
  proof (cases r3)
    case (Inl e)
    with assms unfold l3 show ?thesis by simp
  next
    case r3: (Inr u3)
    show ?thesis
    proof (cases r4)
      case (Inl e)
      with assms unfold r3 s4 l3 l4 show ?thesis by simp
    next
      case r4: (Inr u4)
      show ?thesis
      proof (cases "truthy (list_data c4)")
        case True
        with assms unfold r3 s4 r4 l3 l4 show ?thesis by simp
      next
        case False
        with assms unfold r3 s4 r4 have "not_found c4 = (r, c')" by simp
        from not_found_frame [OF this] l3 l4 show ?thesis by simp
      qed
    qed
  qed
qed

lemma api_refresh_calls:
  "calls (leg (api_refresh now c)) = calls (leg c) @ [GetDatasetList ''Good'']"
  by (simp add: api_refresh_def getDatasetList_def print_def Let_def split: option.splits)

text \<open>
  When \<^verbatim>\<open>recent_enough\<close> calls the API for a DatasetList: with \<^verbatim>\<open>--api\<close>, when the
  latest date of the store is more than seven days before \<open>now\<close>. The attribute
  \<^verbatim>\<open>frequency\<close> does not enter.
\<close>

lemma manifest_fetch_condition:
  assumes "scan (DatasetList_items (fob c)) (long_ago, None) = Inr (d, n)"
  shows "calls (leg (snd (recent_enough loads now c))) =
     calls (leg c) @
     (if use_api c \<and> d < now - timedelta_days 7 then [GetDatasetList ''Good''] else [])"
proof -
  let ?c2 = "if use_api c \<and> d < now - timedelta_days 7 then api_refresh now (c\<lparr>list_name := n\<rparr>)
        else c\<lparr>list_name := n\<rparr>"
  have r: "recent_enough loads now c = after_refresh loads n ?c2"
    by (rule recent_enough_scan [OF assms])
  obtain r' c' where a: "after_refresh loads n ?c2 = (r', c')"
    by (cases "after_refresh loads n ?c2")
  from after_refresh_leg [OF a] have "leg c' = leg ?c2" .
  with r a show ?thesis
    by (simp add: api_refresh_calls)
qed

text \<open>
  C2. The remote manifest fetch should be made exactly when remote fetching is enabled and
  the cached manifest is at least \<^verbatim>\<open>frequency\<close> days old. Line 117 computes
  \<^verbatim>\<open>week_ago\<close> with seven days whatever \<^verbatim>\<open>--frequency\<close> says: with a frequency of
  30 days and a DatasetList of 2024-01-01, the run of 2024-01-10 calls the API, and with a
  frequency of one day the run of 2024-01-03 does not.
\<close>

theorem frequency_is_ignored:
  "frequency (configured 30) = 30 \<and>
   calls (leg (snd (recent_enough example_loads (mk_datetime 2024 1 10 12 0) (configured 30)))) =
     [GetDatasetList ''Good''] \<and>
   frequency (configured 1) = 1 \<and>
   calls (leg (snd (recent_enough example_loads example_now (configured 1)))) = []"
proof -
  have s: "\<And>f. scan (DatasetList_items (fob (configured f))) (long_ago, None) =
      Inr (mk_datetime 2024 1 1 0 0, Some ''DatasetList-2024-01-01.json'')"
    using example_scan by (simp add: configured_def init_def)
  have fields: "\<And>f. use_api (configured f)" "\<And>f. calls (leg (configured f)) = []"
    "\<And>f. frequency (configured f) = f"
    by (simp_all add: configured_def init_def example_client_def)
  have stale: "mk_datetime 2024 1 1 0 0 < mk_datetime 2024 1 10 12 0 - timedelta_days 7"
    by (simp add: date_defs)
  from manifest_fetch_condition [OF s, of example_loads "mk_datetime 2024 1 10 12 0" 30]
    manifest_fetch_condition [OF s, of example_loads example_now 1]
    fields stale example_fresh
  show ?thesis by simp
qed

lemma unmarked_fields:
  "example_loads ''no status'' = Inr (JObj [(''datasetlist'', JArr [entry_json example_entry])])"
  "py_in ''status'' (JObj [(''datasetlist'', JArr [entry_json example_entry])]) = Inr False"
  by (simp_all add: example_loads_def py_in_def)

lemma unmarked_recent_enough:
  assumes "fob c = unmarked_store" and "list_data c = None"
  shows "recent_enough example_loads example_now c =
     (Inr None,
      c\<lparr>list_name := Some ''DatasetList-2024-01-01.json'', list_data := Some ''no status'',
        list_pkg := JObj [(''datasetlist'', JArr [entry_json example_entry])],
        stdout := stdout c @ [''Downloading:  DatasetList-2024-01-01.json'',
                              ''Verifying JSON contents of:  DatasetList-2024-01-01.json'']\<rparr>)"
proof -
  let ?name = "''DatasetList-2024-01-01.json''"
  let ?c2 = "c\<lparr>list_name := Some ?name\<rparr>"
  have s: "scan (DatasetList_items (fob c)) (long_ago, None) =
      Inr (mk_datetime 2024 1 1 0 0, Some ?name)"
    using assms(1) by (simp add: unmarked_store_def name_defs date_defs)
  have r: "recent_enough example_loads example_now c = after_refresh example_loads (Some ?name) ?c2"
    using recent_enough_scan [OF s, of example_loads example_now] example_fresh by simp
  have a: "after_refresh example_loads (Some ?name) ?c2 =
      and_then (verify_json example_loads ''no status''
          ((print (''Downloading:  '' @ ?name) ?c2)\<lparr>list_data := Some ''no status''\<rparr>))
        (\<lambda>u c4. (Inr None, c4))"
    by (rule after_refresh_download) (simp_all add: assms truthy_def unmarked_store_def)
  show ?thesis
    unfolding r a
    by (simp add: verify_json_no_status [of example_loads "''no status''"
          "JObj [(''datasetlist'', JArr [entry_json example_entry])]", OF unmarked_fields]
        print_def str_opt_def)
qed

text \<open>
  C3. A manifest that parses and has no status field should be rejected. The validation
  of lines 154 to 161 has no branch for it: on a DatasetList without a status
  \<^verbatim>\<open>recent_enough\<close> returns without raising and leaves \<^verbatim>\<open>self.datasetlist\<close> at
  \<^verbatim>\<open>None\<close>, and the run goes on to \<^verbatim>\<open>fetch_dataset\<close>, which raises
  \<^verbatim>\<open>TypeError\<close> when it iterates over it.
\<close>

theorem manifest_without_status_not_rejected:
  "fst unmarked_resolved = Inr None \<and>
   list_pkg (snd unmarked_resolved) = JObj [(''datasetlist'', JArr [entry_json example_entry])] \<and>
   py_in ''status'' (list_pkg (snd unmarked_resolved)) = Inr False \<and>
   datasetlist (snd unmarked_resolved) = JNull \<and>
   fst unmarked_run = Inl TypeError"
proof -
  let ?c0 = "init unmarked_store (example_client 10 None) ''local'' []"
  have r0: "unmarked_resolved =
     (Inr None,
      ?c0\<lparr>list_name := Some ''DatasetList-2024-01-01.json'', list_data := Some ''no status'',
        list_pkg := JObj [(''datasetlist'', JArr [entry_json example_entry])],
        stdout := stdout ?c0 @ [''Downloading:  DatasetList-2024-01-01.json'',
                              ''Verifying JSON contents of:  DatasetList-2024-01-01.json'']\<rparr>)"
    unfolding unmarked_resolved_def
    by (rule unmarked_recent_enough) (simp_all add: init_def)
  have d0: "datasetlist ?c0 = JNull" by (simp add: init_def)
  let ?c3 = "set_options (example_options False 7) ?c0"
  have c3: "fob ?c3 = unmarked_store" "list_data ?c3 = None" "datasetlist ?c3 = JNull"
    by (simp_all add: set_options_def example_options_def truthy_def init_def Let_def)
  have up: "upper ''az'' = ''AZ''"
    by (simp add: upper_def)
  let ?c4 = "?c3\<lparr>list_name := Some ''DatasetList-2024-01-01.json'', list_data := Some ''no status'',
        list_pkg := JObj [(''datasetlist'', JArr [entry_json example_entry])],
        stdout := stdout ?c3 @ [''Downloading:  DatasetList-2024-01-01.json'',
                              ''Verifying JSON contents of:  DatasetList-2024-01-01.json'']\<rparr>"
  have rr: "recent_enough example_loads example_now ?c3 = (Inr None, ?c4)"
    by (rule unmarked_recent_enough [OF c3(1,2)])
  have d4: "datasetlist (?c4\<lparr>list_data := None\<rparr>) = JNull"
    using c3(3) by simp
  have loc: "handle_locations (example_options False 7) [example_location] []
      (?c4\<lparr>list_data := None\<rparr>) =
      (Inl TypeError, print ''Processing: Arizona (AZ)'' (?c4\<lparr>list_data := None\<rparr>))"
    using d4
    by (simp add: Let_def example_location_def example_options_def truthy_def up
        fetch_dataset_def py_iter_def print_def)
  have run: "fst unmarked_run = Inl TypeError"
    unfolding unmarked_run_def handle_def
    by (simp only: rr and_then_Inr loc and_then_Inl fst_conv)
  show ?thesis
    unfolding r0 using d0 run by (simp add: unmarked_fields)
qed

end
